theory Spec2Isabelle
  imports Complex_Main
begin

section \<open>The face-recognition engine of advanced_face_recognition.py\<close>

text \<open>
  A shallow embedding of class \<open>AdvancedFaceRecognition\<close>. Python floats are modelled
  as reals (with \<open>float('inf')\<close> as a separate constructor), Python ints that count as
  naturals, the instance attributes as one record that every method takes and returns.
  Calls into numpy, cv2 and face_recognition are not code of the repository: they are
  taken as parameters, collected in the record \<open>library\<close>, and a call that raises is the
  value \<open>None\<close> or \<open>Inl\<close>, so that every \<open>except\<close> handler of the source is a branch
  of the model. Logging is left out: it changes no attribute and no result.
\<close>

subsection \<open>Data\<close>

type_synonym encoding = "real list"

type_synonym location = "int \<times> int \<times> int \<times> int"

datatype py_error = KeyError | IndexError | ValueError | JSONDecodeError | LibraryError

datatype py_float = Finite real | Infinity

text \<open>An entry of students.json: \<open>'name'\<close> is read with a subscript, the others with \<open>.get\<close>.\<close>

record student_info =
  info_name :: "string option"
  info_registration_date :: "string option"
  info_role :: "string option"

record metadata =
  registration_date :: string
  role :: string
  encoding_index :: nat

record stats =
  total_attempts :: nat
  successful_recognitions :: nat
  false_positives :: nat
  processing_times :: "real list"
  confidence_scores :: "real list"

record engine =
  current_model :: string
  face_distance_threshold :: real
  confidence_threshold :: real
  quality_threshold :: real
  recognition_stats :: stats
  known_encodings :: "encoding list"
  known_names :: "string list"
  known_rolls :: "string list"
  known_metadata :: "metadata list"

text \<open>A numpy image of shape (height, width, channels).\<close>

record image =
  height :: nat
  width :: nat
  channels :: nat
  pixel :: "nat \<Rightarrow> nat \<Rightarrow> nat \<Rightarrow> nat"

text \<open>
  The library calls the engine makes on values: \<open>norm_distance a b\<close> is
  \<open>face_recognition.face_distance([a], b)[0]\<close>, the Euclidean norm of \<open>a - b\<close>, and is
  \<open>None\<close> where numpy raises (shapes that do not match); \<open>laplacian_variance\<close> is
  \<open>cv2.Laplacian(gray, cv2.CV_64F).var()\<close> and \<open>gray_mean\<close> is \<open>np.mean(gray)\<close>, both
  of the grey conversion of a non-empty crop.
\<close>

record library =
  norm_distance :: "encoding \<Rightarrow> encoding \<Rightarrow> real option"
  laplacian_variance :: "image \<Rightarrow> real"
  gray_mean :: "image \<Rightarrow> real"

record quality_metrics =
  size_score :: real
  blur_score :: real
  brightness_score :: real
  orientation_score :: real

record quality_info =
  overall_score :: real
  metrics :: "quality_metrics option"
  issues :: "string list"

record recognition_result =
  face_id :: nat
  location :: location
  recognized :: bool
  name :: string
  roll_number :: "string option"
  confidence :: real
  distance :: py_float
  metadata :: "metadata option"
  quality :: "quality_info option"

record calibration_data =
  cal_face_distance_threshold :: real
  cal_confidence_threshold :: real
  cal_quality_threshold :: real
  cal_face_detection_model :: string
  cal_encodings_used :: nat
  cal_unique_persons :: nat

record performance_stats =
  base_stats :: stats
  recognition_rate :: real
  avg_processing_time :: "real option"
  max_processing_time :: "real option"
  avg_confidence :: "real option"
  min_confidence :: "real option"

text \<open>A JSON file on disk: absent, present but not parseable, or parsed.\<close>

datatype 'a json_file = Missing | Unreadable | Parsed 'a

text \<open>
  encodings.json is an object from roll number to a list of encodings, iterated in
  file order; students.json is an object from roll number to a student entry.
\<close>

type_synonym encodings_data = "(string \<times> encoding list) list"

type_synonym students_data = "string \<rightharpoonup> student_info"

subsection \<open>Constants set in \<open>__init__\<close>\<close>

definition min_face_size :: "nat \<times> nat" where
  "min_face_size = (50, 50)"

definition max_face_size :: "nat \<times> nat" where
  "max_face_size = (500, 500)"

definition blur_threshold :: real where
  "blur_threshold = 100"

definition brightness_range :: "real \<times> real" where
  "brightness_range = (50, 200)"

definition initial_stats :: stats where
  "initial_stats =
     \<lparr>total_attempts = 0, successful_recognitions = 0, false_positives = 0,
      processing_times = [], confidence_scores = []\<rparr>"

text \<open>The attributes as \<open>__init__\<close> sets them, before its call of \<open>load_encodings\<close>.\<close>

definition initial_engine :: engine where
  "initial_engine =
     \<lparr>current_model = ''hog'', face_distance_threshold = 0.4,
      confidence_threshold = 0.65, quality_threshold = 0.7,
      recognition_stats = initial_stats,
      known_encodings = [], known_names = [], known_rolls = [], known_metadata = []\<rparr>"

subsection \<open>The statistics module and numpy, as far as the engine uses them\<close>

text \<open>
  \<open>statistics.mean\<close> and \<open>statistics.stdev\<close> raise on too few data; every call of the
  source is guarded by the test that excludes it (a non-empty list for \<open>mean\<close>, more than
  one element for \<open>stdev\<close>).
\<close>

definition mean :: "real list \<Rightarrow> real" where
  "mean xs = sum_list xs / real (length xs)"

definition stdev :: "real list \<Rightarrow> real" where
  "stdev xs = sqrt (sum_list (map (\<lambda>x. (x - mean xs)\<^sup>2) xs) / real (length xs - 1))"

text \<open>\<open>xs[-n:]\<close> for positive \<open>n\<close>.\<close>

definition last_n :: "nat \<Rightarrow> 'a list \<Rightarrow> 'a list" where
  "last_n n xs = drop (length xs - n) xs"

text \<open>
  \<open>face_recognition.face_distance(face_encodings, face_to_compare)\<close>: one distance for
  each known encoding, in order; the call raises when a subtraction does.
\<close>

fun face_distance :: "library \<Rightarrow> encoding list \<Rightarrow> encoding \<Rightarrow> py_error + real list" where
  "face_distance L [] q = Inr []"
| "face_distance L (e # es) q =
     (case norm_distance L e q of
        None \<Rightarrow> Inl ValueError
      | Some d \<Rightarrow>
          (case face_distance L es q of
             Inl err \<Rightarrow> Inl err
           | Inr ds \<Rightarrow> Inr (d # ds)))"

text \<open>
  \<open>np.argmin\<close>: the index of the first occurrence of the minimum; it raises on an
  empty array. \<open>argmin_from b v i xs\<close> scans \<open>xs\<close>, whose first element has index \<open>i\<close>,
  with the best index \<open>b\<close> and the best value \<open>v\<close> so far.
\<close>

fun argmin_from :: "nat \<Rightarrow> real \<Rightarrow> nat \<Rightarrow> real list \<Rightarrow> nat" where
  "argmin_from b v i [] = b"
| "argmin_from b v i (x # xs) =
     (if x < v then argmin_from i x (Suc i) xs else argmin_from b v (Suc i) xs)"

definition argmin :: "real list \<Rightarrow> py_error + nat" where
  "argmin ds = (case ds of [] \<Rightarrow> Inl ValueError | d # rest \<Rightarrow> Inr (argmin_from 0 d 1 rest))"

text \<open>\<open>xs[i]\<close> for a non-negative index.\<close>

definition lookup :: "'a list \<Rightarrow> nat \<Rightarrow> py_error + 'a" where
  "lookup xs i = (if i < length xs then Inr (xs ! i) else Inl IndexError)"

text \<open>
  The bounds of a slice \<open>[a:b]\<close> of a sequence of length \<open>n\<close>: a negative index counts
  from the end, and both are clipped to \<open>0..n\<close>.
\<close>

definition slice_index :: "nat \<Rightarrow> int \<Rightarrow> nat" where
  "slice_index n i = (if i < 0 then nat (max 0 (int n + i)) else min n (nat i))"

text \<open>\<open>image[top:bottom, left:right]\<close>\<close>

definition crop :: "image \<Rightarrow> location \<Rightarrow> image" where
  "crop im loc =
     (case loc of (top', right', bottom', left') \<Rightarrow>
        let r0 = slice_index (height im) top';
            r1 = slice_index (height im) bottom';
            c0 = slice_index (width im) left';
            c1 = slice_index (width im) right'
        in \<lparr>height = (if r0 < r1 then r1 - r0 else 0),
            width = (if c0 < c1 then c1 - c0 else 0),
            channels = channels im,
            pixel = (\<lambda>r c k. pixel im (r0 + r) (c0 + c) k)\<rparr>)"

definition img_size :: "image \<Rightarrow> nat" where
  "img_size im = height im * width im * channels im"

subsection \<open>\<open>auto_calibrate\<close>\<close>

text \<open>\<open>person_encodings[roll].append(e)\<close> on a \<open>defaultdict(list)\<close>, in insertion order.\<close>

fun group_add :: "string \<Rightarrow> encoding \<Rightarrow> (string \<times> encoding list) list
    \<Rightarrow> (string \<times> encoding list) list" where
  "group_add roll e [] = [(roll, [e])]"
| "group_add roll e ((r, es) # rest) =
     (if r = roll then (r, es @ [e]) # rest else (r, es) # group_add roll e rest)"

text \<open>
  The loop over \<open>enumerate(self.known_rolls)\<close> that reads \<open>self.known_encodings[i]\<close>: an
  IndexError when the rolls outnumber the encodings.
\<close>

fun group_by_person :: "string list \<Rightarrow> encoding list \<Rightarrow> (string \<times> encoding list) list
    \<Rightarrow> py_error + (string \<times> encoding list) list" where
  "group_by_person [] encs pe = Inr pe"
| "group_by_person (roll # rolls) [] pe = Inl IndexError"
| "group_by_person (roll # rolls) (e # encs) pe = group_by_person rolls encs (group_add roll e pe)"

text \<open>The distances of a list of pairs, in order; the first call that raises ends it.\<close>

fun pair_distances :: "library \<Rightarrow> (encoding \<times> encoding) list \<Rightarrow> py_error + real list" where
  "pair_distances L [] = Inr []"
| "pair_distances L ((a, b) # ps) =
     (case face_distance L [a] b of
        Inl err \<Rightarrow> Inl err
      | Inr ds \<Rightarrow>
          (case lookup ds 0 of
             Inl err \<Rightarrow> Inl err
           | Inr d \<Rightarrow>
               (case pair_distances L ps of
                  Inl err \<Rightarrow> Inl err
                | Inr rest \<Rightarrow> Inr (d # rest))))"

text \<open>The pairs \<open>(xs[i], xs[j])\<close> for \<open>i < j\<close>, in the order of the two nested loops.\<close>

fun pairs_within :: "'a list \<Rightarrow> ('a \<times> 'a) list" where
  "pairs_within [] = []"
| "pairs_within (x # xs) = map (\<lambda>y. (x, y)) xs @ pairs_within xs"

text \<open>Same person: every group with more than one encoding gives all its pairs.\<close>

definition intra_class_pairs :: "(string \<times> encoding list) list \<Rightarrow> (encoding \<times> encoding) list" where
  "intra_class_pairs pe =
     concat (map (\<lambda>(roll, encodings). if length encodings > 1 then pairs_within encodings else []) pe)"

text \<open>Different people: the first two encodings of each, for every pair of groups.\<close>

definition inter_class_pairs :: "(string \<times> encoding list) list \<Rightarrow> (encoding \<times> encoding) list" where
  "inter_class_pairs pe =
     concat (map (\<lambda>(g1, g2). concat (map (\<lambda>enc1. map (\<lambda>enc2. (enc1, enc2)) (take 2 (snd g2)))
                                        (take 2 (snd g1))))
                 (pairs_within pe))"

text \<open>
  The two lists of distances of the \<open>try\<close> block, intra-class first, or the exception
  that ends the block.
\<close>

definition calibration_distances :: "library \<Rightarrow> engine \<Rightarrow> py_error + (real list \<times> real list)" where
  "calibration_distances L s =
     (case group_by_person (known_rolls s) (known_encodings s) [] of
        Inl err \<Rightarrow> Inl err
      | Inr pe \<Rightarrow>
          (case pair_distances L (intra_class_pairs pe) of
             Inl err \<Rightarrow> Inl err
           | Inr intra_class_distances \<Rightarrow>
               (case pair_distances L (inter_class_pairs pe) of
                  Inl err \<Rightarrow> Inl err
                | Inr inter_class_distances \<Rightarrow>
                    Inr (intra_class_distances, inter_class_distances))))"

text \<open>What \<open>save_calibration_results\<close> writes (the timestamp apart).\<close>

definition save_calibration_results :: "engine \<Rightarrow> calibration_data" where
  "save_calibration_results s =
     \<lparr>cal_face_distance_threshold = face_distance_threshold s,
      cal_confidence_threshold = confidence_threshold s,
      cal_quality_threshold = quality_threshold s,
      cal_face_detection_model = current_model s,
      cal_encodings_used = length (known_encodings s),
      cal_unique_persons = card (set (known_rolls s))\<rparr>"

text \<open>
  The engine after the call, and the calibration record it saved, if any. The early
  return, the exception handler and the skipped \<open>if\<close> all leave the engine as it was.
\<close>

definition auto_calibrate :: "library \<Rightarrow> engine \<Rightarrow> engine \<times> calibration_data option" where
  "auto_calibrate L s =
     (if length (known_encodings s) < 5 then (s, None)
      else
        (case calibration_distances L s of
           Inl err \<Rightarrow> (s, None)
         | Inr (intra_class_distances, inter_class_distances) \<Rightarrow>
             if intra_class_distances \<noteq> [] \<and> inter_class_distances \<noteq> [] then
               let avg_intra = mean intra_class_distances;
                   std_intra = (if length intra_class_distances > 1
                                then stdev intra_class_distances else 0.1);
                   optimal_threshold = avg_intra + 2 * std_intra;
                   s1 = s\<lparr>face_distance_threshold := max 0.3 (min 0.6 optimal_threshold)\<rparr>;
                   s2 = s1\<lparr>confidence_threshold := 1.0 - face_distance_threshold s1 - 0.1\<rparr>
               in (s2, Some (save_calibration_results s2))
             else (s, None)))"

subsection \<open>\<open>load_encodings\<close>\<close>

definition clear_store :: "engine \<Rightarrow> engine" where
  "clear_store s =
     s\<lparr>known_encodings := [], known_names := [], known_rolls := [], known_metadata := []\<rparr>"

text \<open>The dictionary appended to \<open>known_metadata\<close>.\<close>

definition metadata_of :: "student_info \<Rightarrow> nat \<Rightarrow> metadata" where
  "metadata_of student_info i =
     \<lparr>registration_date =
        (case info_registration_date student_info of None \<Rightarrow> ''unknown'' | Some d \<Rightarrow> d),
      role = (case info_role student_info of None \<Rightarrow> ''student'' | Some r \<Rightarrow> r),
      encoding_index = i\<rparr>"

text \<open>The four appends of the inner loop body.\<close>

definition append_encoding :: "string \<Rightarrow> string \<Rightarrow> student_info \<Rightarrow> nat \<Rightarrow> encoding \<Rightarrow> engine \<Rightarrow> engine" where
  "append_encoding roll nm student_info i encoding s =
     s\<lparr>known_encodings := known_encodings s @ [encoding],
       known_names := known_names s @ [nm],
       known_rolls := known_rolls s @ [roll],
       known_metadata := known_metadata s @ [metadata_of student_info i]\<rparr>"

text \<open>
  The inner loop over \<open>enumerate(encodings_list)\<close>, from index \<open>i\<close>, with the counter
  \<open>total_encodings\<close>; \<open>student_info['name']\<close> raises KeyError when the key is absent.
\<close>

fun load_student :: "string \<Rightarrow> student_info \<Rightarrow> nat \<Rightarrow> encoding list \<Rightarrow> engine \<times> nat
    \<Rightarrow> py_error + (engine \<times> nat)" where
  "load_student roll student_info i [] st = Inr st"
| "load_student roll student_info i (encoding # rest) (s, total_encodings) =
     (case info_name student_info of
        None \<Rightarrow> Inl KeyError
      | Some nm \<Rightarrow>
          load_student roll student_info (Suc i) rest
            (append_encoding roll nm student_info i encoding s, Suc total_encodings))"

text \<open>The outer loop over \<open>encodings_data.items()\<close>.\<close>

fun load_items :: "students_data \<Rightarrow> encodings_data \<Rightarrow> engine \<times> nat \<Rightarrow> py_error + (engine \<times> nat)" where
  "load_items students_data [] st = Inr st"
| "load_items students_data ((roll, encodings_list) # rest) st =
     (case students_data roll of
        None \<Rightarrow> load_items students_data rest st
      | Some student_info \<Rightarrow>
          (case load_student roll student_info 0 encodings_list st of
             Inl err \<Rightarrow> Inl err
           | Inr st' \<Rightarrow> load_items students_data rest st'))"

text \<open>
  The body of the \<open>try\<close> block after the four lists are emptied: the exception it ends
  with, or the engine it leaves.
\<close>

definition load_body :: "library \<Rightarrow> encodings_data json_file \<Rightarrow> students_data json_file \<Rightarrow> engine
    \<Rightarrow> py_error + engine" where
  "load_body L encodings_file students_file s0 =
     (if encodings_file \<noteq> Missing \<and> students_file \<noteq> Missing then
        (case encodings_file of
           Parsed encodings_data \<Rightarrow>
             (case students_file of
                Parsed students_data \<Rightarrow>
                  (case load_items students_data encodings_data (s0, 0) of
                     Inl err \<Rightarrow> Inl err
                   | Inr (s1, total_encodings) \<Rightarrow>
                       if total_encodings \<ge> 10 then Inr (fst (auto_calibrate L s1)) else Inr s1)
              | _ \<Rightarrow> Inl JSONDecodeError)
         | _ \<Rightarrow> Inl JSONDecodeError)
      else Inr s0)"

text \<open>
  The handler empties the four lists again; the thresholds are assigned only by
  \<open>auto_calibrate\<close>, the last statement of the \<open>try\<close> block, which raises nothing.
\<close>

definition load_encodings :: "library \<Rightarrow> encodings_data json_file \<Rightarrow> students_data json_file \<Rightarrow> engine
    \<Rightarrow> engine" where
  "load_encodings L encodings_file students_file s =
     (case load_body L encodings_file students_file (clear_store s) of
        Inl err \<Rightarrow> clear_store s
      | Inr s' \<Rightarrow> s')"

subsection \<open>\<open>assess_image_quality\<close>\<close>

definition assess_image_quality :: "library \<Rightarrow> image \<Rightarrow> location \<Rightarrow> quality_info" where
  "assess_image_quality L img face_location =
     (let face_img = crop img face_location in
      if img_size face_img = 0 then
        \<lparr>overall_score = 0.0, metrics = None, issues = [''Empty face region'']\<rparr>
      else
        let face_height = height face_img;
            face_width = width face_img;
            size_sc =
              (if face_width < fst min_face_size \<or> face_height < snd min_face_size then 0.3
               else if face_width > fst max_face_size \<or> face_height > snd max_face_size then 0.7
               else 1.0);
            issues1 =
              (if face_width < fst min_face_size \<or> face_height < snd min_face_size
               then [''Face too small'']
               else if face_width > fst max_face_size \<or> face_height > snd max_face_size
               then [''Face too large'']
               else []);
            blur = laplacian_variance L face_img;
            blur_sc = min 1.0 (blur / blur_threshold);
            issues2 = (if blur < blur_threshold * 0.5 then issues1 @ [''Image too blurry''] else issues1);
            brightness = gray_mean L face_img;
            brightness_sc =
              (if brightness < fst brightness_range then 0.4
               else if brightness > snd brightness_range then 0.6
               else 1.0);
            issues3 =
              (if brightness < fst brightness_range then issues2 @ [''Image too dark'']
               else if brightness > snd brightness_range then issues2 @ [''Image too bright'']
               else issues2);
            quality_metrics = \<lparr>size_score = size_sc, blur_score = blur_sc,
                       brightness_score = brightness_sc, orientation_score = 1.0\<rparr>
        in \<lparr>overall_score =
               size_score quality_metrics * 0.3 + blur_score quality_metrics * 0.4 +
               brightness_score quality_metrics * 0.2 + orientation_score quality_metrics * 0.1,
            metrics = Some quality_metrics,
            issues = issues3\<rparr>)"

subsection \<open>\<open>recognize_faces\<close>\<close>

definition add_attempt :: "engine \<Rightarrow> engine" where
  "add_attempt s =
     s\<lparr>recognition_stats :=
         (recognition_stats s)\<lparr>total_attempts := total_attempts (recognition_stats s) + 1\<rparr>\<rparr>"

definition add_success :: "real \<Rightarrow> engine \<Rightarrow> engine" where
  "add_success c s =
     s\<lparr>recognition_stats :=
         (recognition_stats s)
           \<lparr>successful_recognitions := successful_recognitions (recognition_stats s) + 1,
            confidence_scores := confidence_scores (recognition_stats s) @ [c]\<rparr>\<rparr>"

definition add_processing_time :: "real \<Rightarrow> engine \<Rightarrow> engine" where
  "add_processing_time t s =
     s\<lparr>recognition_stats :=
         (recognition_stats s)\<lparr>processing_times := processing_times (recognition_stats s) @ [t]\<rparr>\<rparr>"

text \<open>The result a face starts with, with its quality report when one is asked for.\<close>

definition unknown_result :: "library \<Rightarrow> image \<Rightarrow> bool \<Rightarrow> nat \<Rightarrow> location \<Rightarrow> recognition_result" where
  "unknown_result L rgb_frame return_quality i face_location =
     \<lparr>face_id = i, location = face_location, recognized = False, name = ''Unknown'',
      roll_number = None, confidence = 0.0, distance = Infinity, metadata = None,
      quality = (if return_quality then Some (assess_image_quality L rgb_frame face_location)
                 else None)\<rparr>"

text \<open>The \<open>result.update\<close> of the accepting branch.\<close>

definition accepted_result :: "recognition_result \<Rightarrow> string \<Rightarrow> string \<Rightarrow> real \<Rightarrow> real \<Rightarrow> metadata
    \<Rightarrow> recognition_result" where
  "accepted_result result nm roll conf best_distance md =
     result\<lparr>recognized := True, name := nm, roll_number := Some roll, confidence := conf,
            distance := Finite best_distance, metadata := Some md\<rparr>"

text \<open>
  The body of the loop over the faces of a frame: the result of face \<open>i\<close>, or the
  exception that leaves the loop, and the engine after it. The three subscripts of the
  accepting branch are evaluated before the counters change, and the rejecting branch
  reads \<open>known_names\<close> for its log line.
\<close>

definition recognize_face :: "library \<Rightarrow> image \<Rightarrow> bool \<Rightarrow> nat \<Rightarrow> encoding \<Rightarrow> location \<Rightarrow> engine
    \<Rightarrow> (py_error + recognition_result) \<times> engine" where
  "recognize_face L rgb_frame return_quality i face_encoding face_location s =
     (let result = unknown_result L rgb_frame return_quality i face_location in
      if length (known_encodings s) > 0 then
        (case face_distance L (known_encodings s) face_encoding of
           Inl err \<Rightarrow> (Inl err, s)
         | Inr face_distances \<Rightarrow>
             (case argmin face_distances of
                Inl err \<Rightarrow> (Inl err, s)
              | Inr best_match_index \<Rightarrow>
                  (case lookup face_distances best_match_index of
                     Inl err \<Rightarrow> (Inl err, s)
                   | Inr best_distance \<Rightarrow>
                       let conf = 1.0 - best_distance in
                       if best_distance \<le> face_distance_threshold s \<and> conf \<ge> confidence_threshold s
                       then
                         (case lookup (known_names s) best_match_index of
                            Inl err \<Rightarrow> (Inl err, s)
                          | Inr nm \<Rightarrow>
                              (case lookup (known_rolls s) best_match_index of
                                 Inl err \<Rightarrow> (Inl err, s)
                               | Inr roll \<Rightarrow>
                                   (case lookup (known_metadata s) best_match_index of
                                      Inl err \<Rightarrow> (Inl err, s)
                                    | Inr md \<Rightarrow>
                                        (Inr (accepted_result result nm roll conf best_distance md),
                                         add_success conf s))))
                       else
                         (case lookup (known_names s) best_match_index of
                            Inl err \<Rightarrow> (Inl err, s)
                          | Inr nm \<Rightarrow> (Inr result, s)))))
      else (Inr result, s))"

text \<open>The loop over \<open>enumerate(zip(face_encodings, face_locations))\<close>, from index \<open>i\<close>.\<close>

fun recognize_loop :: "library \<Rightarrow> image \<Rightarrow> bool \<Rightarrow> nat \<Rightarrow> (encoding \<times> location) list
    \<Rightarrow> recognition_result list \<Rightarrow> engine \<Rightarrow> (py_error + recognition_result list) \<times> engine" where
  "recognize_loop L rgb_frame return_quality i [] results s = (Inr results, s)"
| "recognize_loop L rgb_frame return_quality i ((face_encoding, face_location) # rest) results s =
     (case recognize_face L rgb_frame return_quality i face_encoding face_location s of
        (Inl err, s') \<Rightarrow> (Inl err, s')
      | (Inr result, s') \<Rightarrow>
          recognize_loop L rgb_frame return_quality (Suc i) rest (results @ [result]) s')"

text \<open>
  One call on a frame. \<open>detected\<close> is what the library finds in the frame: the faces as
  pairs of encoding and location (the \<open>zip\<close> of the source), or the exception of the
  colour conversion, the detection or the encoding. \<open>processing_time\<close> is the time the
  clock shows at the end of the \<open>try\<close> block. The call returns its results and the
  engine it leaves; both early returns (no face, an exception) skip the append to
  \<open>processing_times\<close>.
\<close>

definition recognize_faces :: "library \<Rightarrow> engine \<Rightarrow> image \<Rightarrow> py_error + (encoding \<times> location) list
    \<Rightarrow> bool \<Rightarrow> real \<Rightarrow> recognition_result list \<times> engine" where
  "recognize_faces L s rgb_frame detected return_quality processing_time =
     (let s1 = add_attempt s in
      case detected of
        Inl err \<Rightarrow> ([], s1)
      | Inr faces \<Rightarrow>
          if faces = [] then ([], s1)
          else
            (case recognize_loop L rgb_frame return_quality 0 faces [] s1 of
               (Inl err, s2) \<Rightarrow> ([], s2)
             | (Inr results, s2) \<Rightarrow> (results, add_processing_time processing_time s2)))"

subsection \<open>\<open>adaptive_model_selection\<close> and \<open>get_performance_stats\<close>\<close>

definition adaptive_model_selection :: "engine \<Rightarrow> int \<Rightarrow> engine" where
  "adaptive_model_selection s frame_count =
     (if frame_count mod 100 = 0 \<and> length (processing_times (recognition_stats s)) > 10 then
        let avg_time = mean (last_n 10 (processing_times (recognition_stats s))) in
        if avg_time > 0.5 \<and> current_model s = ''cnn'' then s\<lparr>current_model := ''hog''\<rparr>
        else if avg_time < 0.2 \<and> current_model s = ''hog'' then s\<lparr>current_model := ''cnn''\<rparr>
        else s
      else s)"

text \<open>\<open>max(xs)\<close> and \<open>min(xs)\<close> of a non-empty list.\<close>

fun list_max :: "real list \<Rightarrow> real option" where
  "list_max [] = None"
| "list_max (x # xs) = Some (fold max xs x)"

fun list_min :: "real list \<Rightarrow> real option" where
  "list_min [] = None"
| "list_min (x # xs) = Some (fold min xs x)"

definition get_performance_stats :: "engine \<Rightarrow> performance_stats" where
  "get_performance_stats s =
     (let st = recognition_stats s in
      \<lparr>base_stats = st,
       recognition_rate =
         (if total_attempts st > 0
          then real (successful_recognitions st) / real (total_attempts st) else 0.0),
       avg_processing_time =
         (if processing_times st \<noteq> [] then Some (mean (processing_times st)) else None),
       max_processing_time = list_max (processing_times st),
       avg_confidence =
         (if confidence_scores st \<noteq> [] then Some (mean (confidence_scores st)) else None),
       min_confidence = list_min (confidence_scores st)\<rparr>)"

subsection \<open>The store as one list of entries\<close>

text \<open>The four parallel lists have one length.\<close>

definition aligned :: "engine \<Rightarrow> bool" where
  "aligned s \<longleftrightarrow>
     length (known_names s) = length (known_encodings s) \<and>
     length (known_rolls s) = length (known_encodings s) \<and>
     length (known_metadata s) = length (known_encodings s)"

text \<open>Entry \<open>i\<close> of the store: the \<open>i\<close>-th element of each list.\<close>

definition store_entries :: "engine \<Rightarrow> (encoding \<times> string \<times> string \<times> metadata) list" where
  "store_entries s =
     zip (known_encodings s) (zip (known_names s) (zip (known_rolls s) (known_metadata s)))"

text \<open>
  The entries the two files describe: for each roll number of encodings.json that
  students.json knows, in file order, its encodings with their positions.
\<close>

definition student_entries :: "string \<Rightarrow> student_info \<Rightarrow> encoding list
    \<Rightarrow> (encoding \<times> string \<times> string \<times> metadata) list" where
  "student_entries roll student_info encodings_list =
     (case info_name student_info of
        None \<Rightarrow> []
      | Some nm \<Rightarrow>
          map (\<lambda>(k, e). (e, nm, roll, metadata_of student_info k)) (enumerate 0 encodings_list))"

definition expected_entries :: "students_data \<Rightarrow> encodings_data
    \<Rightarrow> (encoding \<times> string \<times> string \<times> metadata) list" where
  "expected_entries students_data encodings_data =
     concat (map (\<lambda>(roll, encodings_list).
                    (case students_data roll of
                       None \<Rightarrow> []
                     | Some student_info \<Rightarrow> student_entries roll student_info encodings_list))
                 encodings_data)"

subsection \<open>A library to run the engine on\<close>

text \<open>
  The Euclidean distance of two vectors of the same length, as
  \<open>np.linalg.norm(a - b)\<close> computes it; vectors of different lengths have none.
\<close>

definition euclidean :: "encoding \<Rightarrow> encoding \<Rightarrow> real option" where
  "euclidean a b =
     (if length a = length b then Some (sqrt (sum_list (map (\<lambda>(x, y). (x - y)\<^sup>2) (zip a b))))
      else None)"

text \<open>A library for sharp, evenly lit frames.\<close>

definition sample_library :: library where
  "sample_library =
     \<lparr>norm_distance = euclidean, laplacian_variance = (\<lambda>im. 150), gray_mean = (\<lambda>im. 128)\<rparr>"

text \<open>
  Two small files: one student on record, and encodings for her (of two different
  lengths) and for a stranger.
\<close>

definition sample_students :: students_data where
  "sample_students =
     [''101'' \<mapsto> \<lparr>info_name = Some ''Ann'', info_registration_date = None, info_role = None\<rparr>]"

definition sample_encodings :: encodings_data where
  "sample_encodings = [(''101'', [[0.1, 0.2], [0.3, 0.4, 0.5]]), (''999'', [[0.5, 0.6]])]"

subsection \<open>The specification's clamp, and stores to calibrate\<close>

text \<open>\<open>clamp(x, lo, hi)\<close> in the specification's words: \<open>x\<close> brought into \<open>[lo, hi]\<close>.\<close>

definition clamp :: "real \<Rightarrow> real \<Rightarrow> real \<Rightarrow> real" where
  "clamp x lo hi = (if x < lo then lo else if x > hi then hi else x)"

text \<open>
  Three people with two encodings each, and five people with one encoding each; the
  encodings have one component, so that their Euclidean distance is an absolute value.
\<close>

definition person_metadata :: "nat \<Rightarrow> metadata" where
  "person_metadata i = \<lparr>registration_date = ''unknown'', role = ''student'', encoding_index = i\<rparr>"

definition three_people :: engine where
  "three_people =
     initial_engine
       \<lparr>known_encodings := [[0], [0.35], [1], [1.45], [2], [2.4]],
        known_names := [''Ann'', ''Ann'', ''Bob'', ''Bob'', ''Cy'', ''Cy''],
        known_rolls := [''101'', ''101'', ''102'', ''102'', ''103'', ''103''],
        known_metadata := [person_metadata 0, person_metadata 1, person_metadata 0,
                           person_metadata 1, person_metadata 0, person_metadata 1]\<rparr>"

definition five_strangers :: engine where
  "five_strangers =
     initial_engine
       \<lparr>known_encodings := [[0], [1], [2], [3], [4]],
        known_names := [''Ann'', ''Bob'', ''Cy'', ''Di'', ''Ed''],
        known_rolls := [''101'', ''102'', ''103'', ''104'', ''105''],
        known_metadata := [person_metadata 0, person_metadata 0, person_metadata 0,
                           person_metadata 0, person_metadata 0]\<rparr>"

subsection \<open>Engines with a latency history, and a frame\<close>

text \<open>
  An engine at its hundredth attempt, in the given detector mode and with the given
  recorded processing times; ten slow frames; and a black 640 x 480 frame.
\<close>

definition with_latencies :: "string \<Rightarrow> real list \<Rightarrow> engine" where
  "with_latencies model pts =
     initial_engine
       \<lparr>current_model := model,
        recognition_stats := initial_stats\<lparr>total_attempts := 100, processing_times := pts\<rparr>\<rparr>"

definition ten_slow :: "real list" where
  "ten_slow = [0.6, 0.6, 0.6, 0.6, 0.6, 0.6, 0.6, 0.6, 0.6, 0.6]"

definition blank_frame :: image where
  "blank_frame = \<lparr>height = 480, width = 640, channels = 3, pixel = (\<lambda>r c k. 0)\<rparr>"

text \<open>Two faces of a frame: their encodings and locations.\<close>

definition two_faces :: "(encoding \<times> location) list" where
  "two_faces = [([0], (10, 110, 110, 10)), ([1], (10, 300, 110, 200))]"

section \<open>Loading the store\<close>

subsection \<open>The loops append whole entries\<close>

lemma append_encoding_aligned: "aligned s \<Longrightarrow> aligned (append_encoding roll nm info i e s)"
  by (simp add: aligned_def append_encoding_def)

lemma append_encoding_entries:
  "aligned s \<Longrightarrow> store_entries (append_encoding roll nm info i e s)
     = store_entries s @ [(e, nm, roll, metadata_of info i)]"
  by (simp add: aligned_def append_encoding_def store_entries_def)

lemma append_encoding_other:
  "current_model (append_encoding roll nm info i e s) = current_model s"
  "face_distance_threshold (append_encoding roll nm info i e s) = face_distance_threshold s"
  "confidence_threshold (append_encoding roll nm info i e s) = confidence_threshold s"
  "quality_threshold (append_encoding roll nm info i e s) = quality_threshold s"
  "recognition_stats (append_encoding roll nm info i e s) = recognition_stats s"
  by (simp_all add: append_encoding_def)

lemma student_entries_Cons:
  "info_name info = Some nm \<Longrightarrow>
   map (\<lambda>(k, e). (e, nm, roll, metadata_of info k)) (enumerate i (e # es))
     = (e, nm, roll, metadata_of info i) # map (\<lambda>(k, e). (e, nm, roll, metadata_of info k)) (enumerate (Suc i) es)"
  by simp

lemma load_student_entries:
  "load_student roll info i es (s, t) = Inr (s', t') \<Longrightarrow> aligned s \<Longrightarrow>
     aligned s' \<and> t' = t + length es \<and>
     store_entries s' = store_entries s @
        (case info_name info of None \<Rightarrow> []
         | Some nm \<Rightarrow> map (\<lambda>(k, e). (e, nm, roll, metadata_of info k)) (enumerate i es)) \<and>
     current_model s' = current_model s \<and>
     face_distance_threshold s' = face_distance_threshold s \<and>
     confidence_threshold s' = confidence_threshold s \<and>
     quality_threshold s' = quality_threshold s \<and>
     recognition_stats s' = recognition_stats s"
proof (induction es arbitrary: i s t)
  case Nil
  then show ?case by (simp split: option.splits)
next
  case (Cons e es)
  from Cons.prems(1) obtain nm where nm: "info_name info = Some nm"
    by (auto split: option.splits)
  with Cons.prems(1) have rec: "load_student roll info (Suc i) es
      (append_encoding roll nm info i e s, Suc t) = Inr (s', t')"
    by simp
  from Cons.IH [OF rec append_encoding_aligned [OF Cons.prems(2)]]
  show ?case
    by (simp add: nm append_encoding_entries [OF Cons.prems(2)] append_encoding_other)
qed

lemma load_items_entries:
  "load_items students encs (s, t) = Inr (s', t') \<Longrightarrow> aligned s \<Longrightarrow>
     aligned s' \<and> t' = t + length (expected_entries students encs) \<and>
     store_entries s' = store_entries s @ expected_entries students encs \<and>
     current_model s' = current_model s \<and>
     face_distance_threshold s' = face_distance_threshold s \<and>
     confidence_threshold s' = confidence_threshold s \<and>
     quality_threshold s' = quality_threshold s \<and>
     recognition_stats s' = recognition_stats s"
proof (induction encs arbitrary: s t)
  case Nil
  then show ?case by (simp add: expected_entries_def)
next
  case (Cons p encs)
  obtain roll es where p: "p = (roll, es)" by (cases p)
  show ?case
  proof (cases "students roll")
    case None
    with Cons.prems p have "load_items students encs (s, t) = Inr (s', t')" by simp
    from Cons.IH [OF this Cons.prems(2)] None p show ?thesis
      by (simp add: expected_entries_def)
  next
    case (Some info)
    with Cons.prems(1) p obtain s1 t1 where
      st: "load_student roll info 0 es (s, t) = Inr (s1, t1)" and
      rest: "load_items students encs (s1, t1) = Inr (s', t')"
      by (auto split: sum.splits)
    note a = load_student_entries [OF st Cons.prems(2)]
    from a have al: "aligned s1" by simp
    note b = Cons.IH [OF rest al]
    have len: "length es = length (student_entries roll info es)" if "es \<noteq> [] \<longrightarrow> info_name info \<noteq> None"
      using that by (cases es) (auto simp: student_entries_def split: option.splits)
    have nm: "es \<noteq> [] \<longrightarrow> info_name info \<noteq> None"
      using st by (cases es) (auto split: option.splits)
    from a b Some p len [OF nm] show ?thesis
      by (simp add: expected_entries_def student_entries_def)
  qed
qed

lemma auto_calibrate_store:
  "known_encodings (fst (auto_calibrate L s)) = known_encodings s"
  "known_names (fst (auto_calibrate L s)) = known_names s"
  "known_rolls (fst (auto_calibrate L s)) = known_rolls s"
  "known_metadata (fst (auto_calibrate L s)) = known_metadata s"
  by (simp_all add: auto_calibrate_def Let_def split: sum.splits prod.splits)

lemma auto_calibrate_entries:
  "store_entries (fst (auto_calibrate L s)) = store_entries s"
  "aligned (fst (auto_calibrate L s)) = aligned s"
  by (simp_all add: store_entries_def aligned_def auto_calibrate_store)

lemma clear_store_entries: "store_entries (clear_store s) = []" "aligned (clear_store s)"
  by (simp_all add: store_entries_def aligned_def clear_store_def)

lemma load_body_entries:
  assumes "load_body L ef sf (clear_store s) = Inr s'"
  shows "aligned s' \<and>
     store_entries s' =
       (case ef of
          Parsed encodings_data \<Rightarrow>
            (case sf of Parsed students_data \<Rightarrow> expected_entries students_data encodings_data
             | _ \<Rightarrow> [])
        | _ \<Rightarrow> [])"
proof (cases "\<exists>ed sd. ef = Parsed ed \<and> sf = Parsed sd")
  case True
  then obtain ed sd where f: "ef = Parsed ed" "sf = Parsed sd" by blast
  with assms obtain s1 t1 where
    li: "load_items sd ed (clear_store s, 0) = Inr (s1, t1)" and
    s': "s' = (if t1 \<ge> 10 then fst (auto_calibrate L s1) else s1)"
    by (auto simp: load_body_def split: sum.splits if_splits)
  from load_items_entries [OF li clear_store_entries(2)]
  show ?thesis
    by (simp add: f s' auto_calibrate_entries clear_store_entries)
next
  case False
  with assms have "s' = clear_store s"
    by (cases ef; cases sf) (auto simp: load_body_def)
  with False show ?thesis
    by (cases ef; cases sf) (auto simp: clear_store_entries)
qed

lemma load_encodings_entries:
  "aligned (load_encodings L ef sf s)"
  "store_entries (load_encodings L ef sf s) =
     (case load_body L ef sf (clear_store s) of
        Inl err \<Rightarrow> []
      | Inr s' \<Rightarrow>
          (case ef of
             Parsed encodings_data \<Rightarrow>
               (case sf of Parsed students_data \<Rightarrow> expected_entries students_data encodings_data
                | _ \<Rightarrow> [])
           | _ \<Rightarrow> []))"
  using load_body_entries [of L ef sf s]
  by (auto simp: load_encodings_def clear_store_entries split: sum.splits)

lemma aligned_nth:
  assumes "aligned s" "i < length (known_encodings s)"
  shows "store_entries s ! i =
     (known_encodings s ! i, known_names s ! i, known_rolls s ! i, known_metadata s ! i)"
  using assms by (simp add: aligned_def store_entries_def)

lemma aligned_length: "aligned s \<Longrightarrow> length (store_entries s) = length (known_encodings s)"
  by (simp add: aligned_def store_entries_def)

lemma expected_entries_ok:
  assumes "(e, nm, roll, md) \<in> set (expected_entries students encs)"
  shows "\<exists>info es. students roll = Some info \<and> (roll, es) \<in> set encs \<and>
           encoding_index md < length es \<and> es ! encoding_index md = e \<and>
           info_name info = Some nm \<and> md = metadata_of info (encoding_index md)"
proof -
  have "\<exists>r es info. (r, es) \<in> set encs \<and> students r = Some info \<and>
      (e, nm, roll, md) \<in> set (student_entries r info es)"
    using assms
  proof (induction encs)
    case Nil
    then show ?case by (simp add: expected_entries_def)
  next
    case (Cons p encs)
    obtain r0 es0 where p: "p = (r0, es0)" by (cases p)
    from Cons.prems p consider
      (here) info where "students r0 = Some info" "(e, nm, roll, md) \<in> set (student_entries r0 info es0)"
      | (there) "(e, nm, roll, md) \<in> set (expected_entries students encs)"
      by (cases "students r0") (auto simp: expected_entries_def)
    then show ?case
    proof cases
      case here
      with p show ?thesis by auto
    next
      case there
      from Cons.IH [OF there] show ?thesis by auto
    qed
  qed
  then obtain r es info where
    in_encs: "(r, es) \<in> set encs" and st: "students r = Some info" and
    mem: "(e, nm, roll, md) \<in> set (student_entries r info es)"
    by blast
  from mem obtain nm' where nm': "info_name info = Some nm'"
    by (cases "info_name info") (auto simp: student_entries_def)
  with mem have "(e, nm, roll, md) \<in> (\<lambda>(k, e). (e, nm', r, metadata_of info k)) ` set (enumerate 0 es)"
    by (simp add: student_entries_def)
  then obtain k e' where ke: "(k, e') \<in> set (enumerate 0 es)"
      "(e, nm, roll, md) = (e', nm', r, metadata_of info k)"
    by auto
  then have k: "k < length es" "e = es ! k" "nm = nm'" "roll = r" "md = metadata_of info k"
    by (auto simp: in_set_enumerate_eq)
  have "encoding_index md = k" using k by (simp add: metadata_of_def)
  with k in_encs st nm' show ?thesis by auto
qed

lemma sample_store:
  "load_encodings sample_library (Parsed sample_encodings) (Parsed sample_students) initial_engine
   = initial_engine\<lparr>known_encodings := [[0.1, 0.2], [0.3, 0.4, 0.5]],
       known_names := [''Ann'', ''Ann''], known_rolls := [''101'', ''101''],
       known_metadata := [metadata_of (the (sample_students ''101'')) 0, metadata_of (the (sample_students ''101'')) 1]\<rparr>"
  by (simp add: load_encodings_def load_body_def sample_encodings_def sample_students_def
        clear_store_def append_encoding_def initial_engine_def)

subsection \<open>The parallel lists after a load\<close>

text \<open>
  Claim C10. After every call of \<open>load_encodings\<close> the lists of encodings, names, rolls
  and metadata have one length, and entry \<open>i\<close> of each describes one stored embedding:
  its roll number has an entry in the students data, whose name is the \<open>i\<close>-th name, and
  the \<open>i\<close>-th encoding is the one at position \<open>encoding_index\<close> in that roll number's
  list of the encodings file. So an encoding is included only if its roll number has a
  student entry; the others are dropped. When the body of the \<open>try\<close> block ends in an
  exception, the four lists are empty.
\<close>

theorem load_encodings_parallel_lists:
  assumes "s' = load_encodings L encodings_file students_file s"
  shows "length (known_names s') = length (known_encodings s') \<and>
         length (known_rolls s') = length (known_encodings s') \<and>
         length (known_metadata s') = length (known_encodings s') \<and>
         (\<forall>i < length (known_encodings s').
            \<exists>encodings_data students_data student_info encodings_list.
              encodings_file = Parsed encodings_data \<and> students_file = Parsed students_data \<and>
              students_data (known_rolls s' ! i) = Some student_info \<and>
              (known_rolls s' ! i, encodings_list) \<in> set encodings_data \<and>
              encoding_index (known_metadata s' ! i) < length encodings_list \<and>
              known_encodings s' ! i = encodings_list ! encoding_index (known_metadata s' ! i) \<and>
              info_name student_info = Some (known_names s' ! i) \<and>
              known_metadata s' ! i =
                metadata_of student_info (encoding_index (known_metadata s' ! i))) \<and>
         (isl (load_body L encodings_file students_file (clear_store s)) \<longrightarrow>
            known_encodings s' = [] \<and> known_names s' = [] \<and> known_rolls s' = [] \<and>
            known_metadata s' = [])"
proof -
  have al: "aligned s'"
    by (simp add: assms load_encodings_entries(1))
  have entries: "\<exists>encodings_data students_data student_info encodings_list.
              encodings_file = Parsed encodings_data \<and> students_file = Parsed students_data \<and>
              students_data (known_rolls s' ! i) = Some student_info \<and>
              (known_rolls s' ! i, encodings_list) \<in> set encodings_data \<and>
              encoding_index (known_metadata s' ! i) < length encodings_list \<and>
              known_encodings s' ! i = encodings_list ! encoding_index (known_metadata s' ! i) \<and>
              info_name student_info = Some (known_names s' ! i) \<and>
              known_metadata s' ! i =
                metadata_of student_info (encoding_index (known_metadata s' ! i))"
    if i: "i < length (known_encodings s')" for i
  proof -
    have nth: "store_entries s' ! i =
        (known_encodings s' ! i, known_names s' ! i, known_rolls s' ! i, known_metadata s' ! i)"
      by (rule aligned_nth [OF al i])
    have mem: "store_entries s' ! i \<in> set (store_entries s')"
      using i aligned_length [OF al] by simp
    from i aligned_length [OF al] have ne: "store_entries s' \<noteq> []" by auto
    then obtain ed sd where f: "encodings_file = Parsed ed" "students_file = Parsed sd"
      and se: "store_entries s' = expected_entries sd ed"
      unfolding assms load_encodings_entries(2)
      by (auto split: sum.splits json_file.splits)
    from mem have "(known_encodings s' ! i, known_names s' ! i, known_rolls s' ! i,
        known_metadata s' ! i) \<in> set (expected_entries sd ed)"
      unfolding nth unfolding se .
    from expected_entries_ok [OF this] obtain info es where
      "sd (known_rolls s' ! i) = Some info" "(known_rolls s' ! i, es) \<in> set ed"
      "encoding_index (known_metadata s' ! i) < length es"
      "known_encodings s' ! i = es ! encoding_index (known_metadata s' ! i)"
      "info_name info = Some (known_names s' ! i)"
      "known_metadata s' ! i = metadata_of info (encoding_index (known_metadata s' ! i))"
      by metis
    with f show ?thesis by blast
  qed
  have err: "known_encodings s' = [] \<and> known_names s' = [] \<and> known_rolls s' = [] \<and>
      known_metadata s' = []"
    if "isl (load_body L encodings_file students_file (clear_store s))"
    using that by (auto simp: assms load_encodings_def clear_store_def isl_def)
  from al entries err show ?thesis
    by (simp add: aligned_def)
qed

theorem load_encodings_parallel_lists_witness:
  "(let s' = load_encodings sample_library (Parsed sample_encodings) (Parsed sample_students)
               initial_engine
    in length (known_names s') = length (known_encodings s') \<and>
       length (known_rolls s') = length (known_encodings s') \<and>
       length (known_metadata s') = length (known_encodings s') \<and>
       length (known_encodings s') = 2 \<and>
       known_rolls s' = [''101'', ''101''] \<and>
       known_names s' = [''Ann'', ''Ann''] \<and>
       map encoding_index (known_metadata s') = [0, 1] \<and>
       ''999'' \<notin> set (known_rolls s'))"
  using load_encodings_parallel_lists [OF refl, of sample_library "Parsed sample_encodings"
      "Parsed sample_students" initial_engine]
  by (simp add: sample_store Let_def metadata_of_def)

subsection \<open>No check of an embedding's length\<close>

lemma load_student_ok:
  "info_name info \<noteq> None \<or> es = [] \<Longrightarrow> \<exists>st'. load_student roll info i es st = Inr st'"
proof (induction es arbitrary: i st)
  case Nil
  then show ?case by simp
next
  case (Cons e es)
  then obtain nm where "info_name info = Some nm" by auto
  with Cons.IH [of "Suc i"] show ?case by (cases st) auto
qed

lemma load_items_ok:
  assumes "\<forall>(roll, es) \<in> set encs. \<forall>info. students roll = Some info \<longrightarrow> es \<noteq> []
              \<longrightarrow> info_name info \<noteq> None"
  shows "\<exists>st'. load_items students encs st = Inr st'"
  using assms
proof (induction encs arbitrary: st)
  case Nil
  then show ?case by simp
next
  case (Cons p encs)
  obtain roll es where p: "p = (roll, es)" by (cases p)
  show ?case
  proof (cases "students roll")
    case None
    with Cons p show ?thesis by simp
  next
    case (Some info)
    with Cons.prems p have "info_name info \<noteq> None \<or> es = []" by auto
    from load_student_ok [OF this] obtain st1 where "load_student roll info 0 es st = Inr st1"
      by blast
    moreover from Cons.IH [of st1] Cons.prems obtain st2 where
      "load_items students encs st1 = Inr st2" by auto
    ultimately show ?thesis using Some p by simp
  qed
qed

lemma map_fst_student_entries:
  "info_name info \<noteq> None \<or> es = [] \<Longrightarrow> map fst (student_entries roll info es) = es"
proof -
  have "map fst (map (\<lambda>(k, e). (e, f k)) (enumerate i es)) = es" for f :: "nat \<Rightarrow> 'b" and i
    by (induction es arbitrary: i) simp_all
  then show "info_name info \<noteq> None \<or> es = [] \<Longrightarrow> map fst (student_entries roll info es) = es"
    by (cases "info_name info") (auto simp: student_entries_def)
qed

lemma map_fst_expected_entries:
  assumes "\<forall>(roll, es) \<in> set encs. \<forall>info. students roll = Some info \<longrightarrow> es \<noteq> []
              \<longrightarrow> info_name info \<noteq> None"
  shows "map fst (expected_entries students encs)
     = concat (map snd (filter (\<lambda>(roll, es). students roll \<noteq> None) encs))"
  using assms
proof (induction encs)
  case Nil
  then show ?case by (simp add: expected_entries_def)
next
  case (Cons p encs)
  obtain roll es where p: "p = (roll, es)" by (cases p)
  from Cons have IH: "map fst (expected_entries students encs)
     = concat (map snd (filter (\<lambda>(roll, es). students roll \<noteq> None) encs))" by simp
  have split: "expected_entries students (p # encs) =
      (case students roll of None \<Rightarrow> [] | Some info \<Rightarrow> student_entries roll info es)
       @ expected_entries students encs"
    by (simp add: expected_entries_def p)
  show ?case
  proof (cases "students roll")
    case None
    with IH split p show ?thesis by simp
  next
    case (Some info)
    with Cons.prems p have "info_name info \<noteq> None \<or> es = []" by auto
    from map_fst_student_entries [OF this] IH split Some p show ?thesis by simp
  qed
qed

lemma aligned_map_fst: "aligned s \<Longrightarrow> map fst (store_entries s) = known_encodings s"
  by (simp add: aligned_def store_entries_def)

text \<open>
  Claim C6, as the specification states it, fails: the loader never looks at the length
  of an embedding. Here one load stores an embedding of length 2 and one of length 3,
  so whatever the store dimension is (128 by default), an embedding of another length
  was neither refused nor skipped.
\<close>

theorem load_encodings_keeps_every_length:
  "[0.1, 0.2] \<in> set (known_encodings (load_encodings sample_library (Parsed sample_encodings)
       (Parsed sample_students) initial_engine)) \<and>
   [0.3, 0.4, 0.5] \<in> set (known_encodings (load_encodings sample_library (Parsed sample_encodings)
       (Parsed sample_students) initial_engine)) \<and>
   length [0.1, 0.2 :: real] \<noteq> length [0.3, 0.4, 0.5 :: real] \<and>
   length [0.1, 0.2 :: real] \<noteq> 128"
  by (simp add: sample_store)

text \<open>
  Claim C6, amended. No embedding is skipped or refused for its length: a load that
  meets no exception (every student entry that is used has a name) stores every
  embedding of every roll number that has a student entry, whatever its length, in
  file order; only the embeddings of roll numbers without a student entry are left out.
\<close>

theorem load_encodings_no_dimension_check:
  assumes "\<forall>(roll, es) \<in> set encodings_data. \<forall>info. students_data roll = Some info \<longrightarrow> es \<noteq> []
              \<longrightarrow> info_name info \<noteq> None"
  shows "known_encodings (load_encodings L (Parsed encodings_data) (Parsed students_data) s) =
         concat (map snd (filter (\<lambda>(roll, es). students_data roll \<noteq> None) encodings_data))"
proof -
  let ?s' = "load_encodings L (Parsed encodings_data) (Parsed students_data) s"
  from load_items_ok [OF assms] obtain s1 t1 where
    li: "load_items students_data encodings_data (clear_store s, 0) = Inr (s1, t1)"
    by (metis surj_pair)
  then obtain s2 where
    "load_body L (Parsed encodings_data) (Parsed students_data) (clear_store s) = Inr s2"
    by (cases "10 \<le> t1") (simp_all add: load_body_def)
  then have "store_entries ?s' = expected_entries students_data encodings_data"
    by (simp add: load_encodings_entries(2))
  then have "map fst (store_entries ?s') = map fst (expected_entries students_data encodings_data)"
    by simp
  then show ?thesis
    by (simp add: aligned_map_fst [OF load_encodings_entries(1)] map_fst_expected_entries [OF assms])
qed

theorem load_encodings_no_dimension_check_witness:
  "known_encodings (load_encodings sample_library (Parsed sample_encodings)
       (Parsed sample_students) initial_engine) = [[0.1, 0.2], [0.3, 0.4, 0.5]]"
proof -
  have h: "\<forall>(roll, es) \<in> set sample_encodings. \<forall>info. sample_students roll = Some info \<longrightarrow> es \<noteq> []
              \<longrightarrow> info_name info \<noteq> None"
    by (simp add: sample_encodings_def sample_students_def)
  have stored: "concat (map snd (filter (\<lambda>(roll, es). sample_students roll \<noteq> None)
      sample_encodings)) = [[0.1, 0.2], [0.3, 0.4, 0.5]]"
    by (simp add: sample_encodings_def sample_students_def)
  from load_encodings_no_dimension_check [OF h, of sample_library initial_engine] stored
  show ?thesis
    by simp
qed

section \<open>Calibration\<close>

subsection \<open>The sample stores\<close>

lemma euclidean_1d: "euclidean [x] [y] = Some \<bar>x - y\<bar>"
  by (simp add: euclidean_def)

lemma sample_norm: "norm_distance sample_library [x] [y] = Some \<bar>x - y\<bar>"
  by (simp add: sample_library_def euclidean_1d)

lemma three_people_groups:
  "group_by_person (known_rolls three_people) (known_encodings three_people) []
   = Inr [(''101'', [[0], [0.35]]), (''102'', [[1], [1.45]]), (''103'', [[2], [2.4]])]"
  by (simp add: three_people_def)

lemma three_people_distances:
  "calibration_distances sample_library three_people
   = Inr ([0.35, 0.45, 0.4], [1, 1.45, 0.65, 1.1, 2, 2.4, 1.65, 2.05, 1, 1.4, 0.55, 0.95])"
  by (simp add: calibration_distances_def three_people_groups intra_class_pairs_def
        inter_class_pairs_def sample_norm lookup_def)

lemma five_strangers_distances:
  "calibration_distances sample_library five_strangers
   = Inr ([], [1, 2, 3, 4, 1, 2, 3, 1, 2, 1])"
  by (simp add: calibration_distances_def five_strangers_def intra_class_pairs_def
        inter_class_pairs_def sample_norm lookup_def)

lemma stdev_sample: "stdev [0.35, 0.45, 0.4] = 0.05"
proof -
  have "sum_list (map (\<lambda>x. (x - mean [0.35, 0.45, 0.4 :: real])\<^sup>2) [0.35, 0.45, 0.4])
        / real (length [0.35, 0.45, 0.4 :: real] - 1) = (0.05 :: real)\<^sup>2"
    by (simp add: mean_def power2_eq_square)
  then show ?thesis
    by (simp add: stdev_def del: sum_list.Cons map_eq_conv list.map)
qed

subsection \<open>The thresholds of a calibration\<close>

lemma clamp_max_min: "lo \<le> hi \<Longrightarrow> max lo (min hi x) = clamp x lo hi"
  by (simp add: clamp_def max_def min_def)

lemma auto_calibrate_success:
  assumes "5 \<le> length (known_encodings s)"
    and "calibration_distances L s = Inr (intra_ds, inter_ds)"
    and "intra_ds \<noteq> []" and "inter_ds \<noteq> []"
  shows "fst (auto_calibrate L s) =
     s\<lparr>face_distance_threshold :=
          max 0.3 (min 0.6 (mean intra_ds + 2 * (if length intra_ds > 1 then stdev intra_ds else 0.1))),
       confidence_threshold :=
          1.0 - max 0.3 (min 0.6 (mean intra_ds + 2 * (if length intra_ds > 1 then stdev intra_ds else 0.1)))
            - 0.1\<rparr>"
  using assms by (simp add: auto_calibrate_def Let_def)

text \<open>
  Claim C2. For a calibration input (a store of at least 5 embeddings) whose
  intra-class and inter-class distance lists are both non-empty, the new
  \<open>face_distance_threshold\<close> is \<open>clamp(mean_intra + 2 * std_intra, 0.3, 0.6)\<close>, where
  \<open>std_intra\<close> is the sample standard deviation of the intra-class distances, or 0.1
  when there are fewer than 2 of them, and the new \<open>confidence_threshold\<close> is
  \<open>1.0 - face_distance_threshold - 0.1\<close>; so the distance threshold lies in [0.3, 0.6].
\<close>

theorem auto_calibrate_thresholds:
  assumes "5 \<le> length (known_encodings s)"
    and "calibration_distances L s = Inr (intra_ds, inter_ds)"
    and "intra_ds \<noteq> []" and "inter_ds \<noteq> []"
  shows "face_distance_threshold (fst (auto_calibrate L s)) =
           clamp (mean intra_ds + 2 * (if length intra_ds < 2 then 0.1 else stdev intra_ds)) 0.3 0.6 \<and>
         confidence_threshold (fst (auto_calibrate L s)) =
           1.0 - face_distance_threshold (fst (auto_calibrate L s)) - 0.1 \<and>
         0.3 \<le> face_distance_threshold (fst (auto_calibrate L s)) \<and>
         face_distance_threshold (fst (auto_calibrate L s)) \<le> 0.6"
proof -
  let ?t = "mean intra_ds + 2 * (if length intra_ds < 2 then 0.1 else stdev intra_ds)"
  have same: "(if length intra_ds > 1 then stdev intra_ds else 0.1)
      = (if length intra_ds < 2 then 0.1 else stdev intra_ds)"
    by auto
  have dt: "face_distance_threshold (fst (auto_calibrate L s)) = max 0.3 (min 0.6 ?t)"
    by (simp add: auto_calibrate_success [OF assms] same)
  have ct: "confidence_threshold (fst (auto_calibrate L s)) = 1.0 - max 0.3 (min 0.6 ?t) - 0.1"
    by (simp add: auto_calibrate_success [OF assms] same)
  have cl: "max 0.3 (min 0.6 ?t) = clamp ?t 0.3 0.6"
    by (rule clamp_max_min) simp
  have lo: "0.3 \<le> max 0.3 (min 0.6 ?t)" by simp
  have hi: "max 0.3 (min 0.6 ?t) \<le> 0.6" by (simp add: max_def min_def)
  show ?thesis
    unfolding dt ct using cl lo hi by simp
qed

theorem auto_calibrate_thresholds_witness:
  "5 \<le> length (known_encodings three_people) \<and>
   calibration_distances sample_library three_people
     = Inr ([0.35, 0.45, 0.4], [1, 1.45, 0.65, 1.1, 2, 2.4, 1.65, 2.05, 1, 1.4, 0.55, 0.95]) \<and>
   face_distance_threshold (fst (auto_calibrate sample_library three_people)) = 0.5 \<and>
   confidence_threshold (fst (auto_calibrate sample_library three_people)) = 0.4"
proof -
  have n: "5 \<le> length (known_encodings three_people)"
    by (simp add: three_people_def)
  have v: "clamp (mean [0.35, 0.45, 0.4] +
        2 * (if length [0.35, 0.45, 0.4 :: real] < 2 then 0.1 else stdev [0.35, 0.45, 0.4]))
      0.3 0.6 = 0.5"
    unfolding stdev_sample by (simp add: clamp_def mean_def)
  note t = auto_calibrate_thresholds [OF n three_people_distances, unfolded v]
  from t have dt: "face_distance_threshold (fst (auto_calibrate sample_library three_people)) = 0.5"
    by (rule conjunct1) simp_all
  from t have "confidence_threshold (fst (auto_calibrate sample_library three_people)) =
      1.0 - face_distance_threshold (fst (auto_calibrate sample_library three_people)) - 0.1"
    by blast
  with dt have ct: "confidence_threshold (fst (auto_calibrate sample_library three_people)) = 0.4"
    by simp
  from n three_people_distances dt ct show ?thesis
    by blast
qed

subsection \<open>A calibration that does not happen\<close>

lemma auto_calibrate_exception:
  "calibration_distances L s = Inl err \<Longrightarrow> auto_calibrate L s = (s, None)"
  by (simp add: auto_calibrate_def)

text \<open>
  Claim C3. A calibration of a store of fewer than 5 embeddings, or of one whose
  intra-class or inter-class distance list is empty, changes nothing: the engine is
  returned as it was, so both thresholds keep their values, and no calibration record
  is produced (the method has no other way to report insufficient data: it returns
  \<open>None\<close> on every path).
\<close>

theorem auto_calibrate_insufficient_data:
  assumes "length (known_encodings s) < 5 \<or>
           (\<exists>intra_ds inter_ds. calibration_distances L s = Inr (intra_ds, inter_ds) \<and>
              (intra_ds = [] \<or> inter_ds = []))"
  shows "auto_calibrate L s = (s, None) \<and>
         face_distance_threshold (fst (auto_calibrate L s)) = face_distance_threshold s \<and>
         confidence_threshold (fst (auto_calibrate L s)) = confidence_threshold s"
proof -
  have "auto_calibrate L s = (s, None)"
    using assms by (auto simp: auto_calibrate_def)
  then show ?thesis by simp
qed

theorem auto_calibrate_insufficient_data_witness:
  "length (known_encodings initial_engine) < 5 \<and>
   auto_calibrate sample_library initial_engine = (initial_engine, None) \<and>
   5 \<le> length (known_encodings five_strangers) \<and>
   calibration_distances sample_library five_strangers = Inr ([], [1, 2, 3, 4, 1, 2, 3, 1, 2, 1]) \<and>
   auto_calibrate sample_library five_strangers = (five_strangers, None) \<and>
   face_distance_threshold (fst (auto_calibrate sample_library five_strangers)) = 0.4 \<and>
   confidence_threshold (fst (auto_calibrate sample_library five_strangers)) = 0.65"
proof -
  have a: "length (known_encodings initial_engine) < 5"
    by (simp add: initial_engine_def)
  have b: "\<exists>intra_ds inter_ds. calibration_distances sample_library five_strangers = Inr (intra_ds, inter_ds) \<and>
              (intra_ds = [] \<or> inter_ds = [])"
    by (simp add: five_strangers_distances)
  have c: "face_distance_threshold five_strangers = 0.4" "confidence_threshold five_strangers = 0.65"
    "5 \<le> length (known_encodings five_strangers)"
    by (simp_all add: five_strangers_def initial_engine_def)
  from auto_calibrate_insufficient_data [OF disjI1 [OF a], of sample_library]
       auto_calibrate_insufficient_data [OF disjI2 [OF b]]
  show ?thesis
    using a c five_strangers_distances by simp
qed

section \<open>The adaptive choice of the detector\<close>

lemma mean_last_10:
  assumes "length pts > 10"
  shows "mean (last_n 10 pts) = sum_list (drop (length pts - 10) pts) / 10"
  using assms by (simp add: mean_def last_n_def)

text \<open>
  Claim C5, as the specification states it, fails at a store of exactly 10 latency
  samples: at attempt 100, in the accurate mode (\<open>cnn\<close>) and with the last 10 latencies
  averaging 0.6 s, "at least 10 samples exist", yet the mode stays \<open>cnn\<close>. The guard of
  the source is \<open>len(processing_times) > 10\<close>.
\<close>

theorem adaptive_model_selection_ten_samples:
  "(100 :: int) mod 100 = 0 \<and>
   length (processing_times (recognition_stats (with_latencies ''cnn'' ten_slow))) = 10 \<and>
   mean (last_n 10 (processing_times (recognition_stats (with_latencies ''cnn'' ten_slow)))) = 0.6 \<and>
   current_model (with_latencies ''cnn'' ten_slow) = ''cnn'' \<and>
   current_model (adaptive_model_selection (with_latencies ''cnn'' ten_slow) 100) = ''cnn''"
  by (simp add: with_latencies_def ten_slow_def adaptive_model_selection_def mean_def last_n_def
        initial_engine_def initial_stats_def)

text \<open>
  Claim C5, amended. The selector evaluates only when the frame count is a multiple
  of 100 and more than 10 latency samples exist. At such a checkpoint, with \<open>avg\<close> the
  average of the last 10 latencies: if \<open>avg > 0.5\<close> and the mode is accurate (\<open>cnn\<close>) it
  becomes fast (\<open>hog\<close>); if \<open>avg < 0.2\<close> and the mode is fast it becomes accurate; in
  every other case, in particular for \<open>avg\<close> in [0.2, 0.5], the engine is unchanged. At
  every other call the engine is unchanged.
\<close>

theorem adaptive_model_selection_checkpoint:
  assumes "pts = processing_times (recognition_stats s)"
    and "avg = sum_list (drop (length pts - 10) pts) / 10"
  shows "(frame_count mod 100 \<noteq> 0 \<or> length pts \<le> 10 \<longrightarrow>
            adaptive_model_selection s frame_count = s) \<and>
         (frame_count mod 100 = 0 \<and> length pts > 10 \<longrightarrow>
            (avg > 0.5 \<and> current_model s = ''cnn'' \<longrightarrow>
               adaptive_model_selection s frame_count = s\<lparr>current_model := ''hog''\<rparr>) \<and>
            (avg < 0.2 \<and> current_model s = ''hog'' \<longrightarrow>
               adaptive_model_selection s frame_count = s\<lparr>current_model := ''cnn''\<rparr>) \<and>
            (0.2 \<le> avg \<and> avg \<le> 0.5 \<longrightarrow> adaptive_model_selection s frame_count = s) \<and>
            (avg > 0.5 \<and> current_model s \<noteq> ''cnn'' \<longrightarrow> adaptive_model_selection s frame_count = s) \<and>
            (avg < 0.2 \<and> current_model s \<noteq> ''hog'' \<longrightarrow> adaptive_model_selection s frame_count = s))"
proof -
  have off: "adaptive_model_selection s frame_count = s"
    if "frame_count mod 100 \<noteq> 0 \<or> length pts \<le> 10"
    using that assms(1) by (auto simp: adaptive_model_selection_def)
  have on: "adaptive_model_selection s frame_count =
      (if avg > 0.5 \<and> current_model s = ''cnn'' then s\<lparr>current_model := ''hog''\<rparr>
       else if avg < 0.2 \<and> current_model s = ''hog'' then s\<lparr>current_model := ''cnn''\<rparr>
       else s)"
    if "frame_count mod 100 = 0" "length pts > 10"
  proof -
    from that(2) have "mean (last_n 10 pts) = avg"
      unfolding assms(2) by (rule mean_last_10)
    with that show ?thesis
      by (simp add: adaptive_model_selection_def assms(1) [symmetric] Let_def)
  qed
  show ?thesis
    using off on by auto
qed

theorem adaptive_model_selection_checkpoint_witness:
  "current_model (adaptive_model_selection (with_latencies ''cnn'' (0.1 # ten_slow)) 100) = ''hog'' \<and>
   current_model (adaptive_model_selection (with_latencies ''cnn'' (0.1 # ten_slow)) 101) = ''cnn'' \<and>
   adaptive_model_selection (with_latencies ''cnn'' ten_slow) 100 = with_latencies ''cnn'' ten_slow"
proof -
  let ?s = "with_latencies ''cnn'' (0.1 # ten_slow)"
  have pts: "0.1 # ten_slow = processing_times (recognition_stats ?s)"
    by (simp add: with_latencies_def)
  have avg: "0.6 = sum_list (drop (length (0.1 # ten_slow) - 10) (0.1 # ten_slow)) / 10"
    by (simp add: ten_slow_def)
  have pts': "ten_slow = processing_times (recognition_stats (with_latencies ''cnn'' ten_slow))"
    by (simp add: with_latencies_def)
  have avg': "0.6 = sum_list (drop (length ten_slow - 10) ten_slow) / 10"
    by (simp add: ten_slow_def)
  have m: "current_model ?s = ''cnn''" "length (0.1 # ten_slow) > 10" "length ten_slow \<le> 10"
    by (simp_all add: with_latencies_def ten_slow_def)
  from adaptive_model_selection_checkpoint [OF pts avg, of 100]
       adaptive_model_selection_checkpoint [OF pts avg, of 101]
       adaptive_model_selection_checkpoint [OF pts' avg', of 100] m
  show ?thesis
    by simp
qed

section \<open>The quality of a face region\<close>

lemma crop_empty:
  "height (crop img loc) = 0 \<or> width (crop img loc) = 0 \<Longrightarrow> img_size (crop img loc) = 0"
  by (auto simp: img_size_def)

text \<open>
  Claim C8, as the specification states it, fails in the text of the issue: for a
  region of height 0 the issues list is \<open>['Empty face region']\<close>, which does not
  contain the string "empty region".
\<close>

theorem assess_image_quality_issue_text:
  "height (crop blank_frame (10, 60, 10, 20)) = 0 \<and>
   overall_score (assess_image_quality sample_library blank_frame (10, 60, 10, 20)) = 0 \<and>
   issues (assess_image_quality sample_library blank_frame (10, 60, 10, 20)) = [''Empty face region''] \<and>
   ''empty region'' \<notin> set (issues (assess_image_quality sample_library blank_frame (10, 60, 10, 20)))"
  by (simp add: assess_image_quality_def crop_def slice_index_def blank_frame_def img_size_def)

text \<open>
  Claim C8, amended. For every face region whose crop has width 0 or height 0, the
  assessor returns \<open>overall_score = 0.0\<close> with the issues list \<open>['Empty face region']\<close> and
  no metrics: size, blur, brightness and orientation are not computed.
\<close>

theorem assess_image_quality_empty_region:
  assumes "height (crop img face_location) = 0 \<or> width (crop img face_location) = 0"
  shows "assess_image_quality L img face_location =
           \<lparr>overall_score = 0, metrics = None, issues = [''Empty face region'']\<rparr>"
  using crop_empty [OF assms] by (simp add: assess_image_quality_def Let_def)

theorem assess_image_quality_empty_region_witness:
  "width (crop blank_frame (10, 20, 70, 20)) = 0 \<and>
   assess_image_quality sample_library blank_frame (10, 20, 70, 20) =
     \<lparr>overall_score = 0, metrics = None, issues = [''Empty face region'']\<rparr>"
proof -
  have w: "width (crop blank_frame (10, 20, 70, 20)) = 0"
    by (simp add: crop_def slice_index_def blank_frame_def)
  from assess_image_quality_empty_region [OF disjI2 [OF w], of sample_library] w
  show ?thesis by simp
qed

section \<open>Matching a face\<close>

subsection \<open>The distances and the first minimum\<close>

lemma face_distance_Inr:
  "face_distance L es q = Inr ds \<Longrightarrow>
     length ds = length es \<and> (\<forall>j < length es. norm_distance L (es ! j) q = Some (ds ! j))"
proof (induction es arbitrary: ds)
  case Nil
  then show ?case by simp
next
  case (Cons e es)
  from Cons.prems obtain d ds' where
    d: "norm_distance L e q = Some d" and ds': "face_distance L es q = Inr ds'" and
    ds: "ds = d # ds'"
    by (auto split: option.splits sum.splits)
  from Cons.IH [OF ds'] d ds show ?case
    by (auto simp: nth_Cons split: nat.splits)
qed

lemma face_distance_total:
  "\<forall>e \<in> set es. norm_distance L e q \<noteq> None \<Longrightarrow> \<exists>ds. face_distance L es q = Inr ds"
  by (induction es) auto

lemma argmin_from_first_min:
  assumes "b < length pre" and "pre ! b = v"
    and "\<forall>j < length pre. v \<le> pre ! j" and "\<forall>j < b. v < pre ! j"
  shows "argmin_from b v (length pre) xs < length (pre @ xs) \<and>
         (\<forall>j < length (pre @ xs). (pre @ xs) ! argmin_from b v (length pre) xs \<le> (pre @ xs) ! j) \<and>
         (\<forall>j < argmin_from b v (length pre) xs.
             (pre @ xs) ! argmin_from b v (length pre) xs < (pre @ xs) ! j)"
  using assms
proof (induction xs arbitrary: pre b v)
  case Nil
  then show ?case by simp
next
  case (Cons x xs)
  let ?pre = "pre @ [x]"
  have app: "?pre @ xs = pre @ x # xs" by simp
  have len: "length ?pre = Suc (length pre)" by simp
  show ?case
  proof (cases "x < v")
    case True
    have 1: "length pre < length ?pre" by simp
    have 2: "?pre ! length pre = x" by simp
    have 3: "\<forall>j < length ?pre. x \<le> ?pre ! j"
    proof (intro allI impI)
      fix j assume "j < length ?pre"
      then consider "j < length pre" | "j = length pre" by fastforce
      then show "x \<le> ?pre ! j"
      proof cases
        case 1
        with Cons.prems(3) True show ?thesis by (force simp: nth_append)
      next
        case 2
        then show ?thesis by simp
      qed
    qed
    have 4: "\<forall>j < length pre. x < ?pre ! j"
      using Cons.prems(3) True by (force simp: nth_append)
    from Cons.IH [OF 1 2 3 4] True show ?thesis
      unfolding app len by simp
  next
    case False
    have 1: "b < length ?pre" using Cons.prems(1) by simp
    have 2: "?pre ! b = v" using Cons.prems(1,2) by (simp add: nth_append)
    have 3: "\<forall>j < length ?pre. v \<le> ?pre ! j"
    proof (intro allI impI)
      fix j assume "j < length ?pre"
      then consider "j < length pre" | "j = length pre" by fastforce
      then show "v \<le> ?pre ! j"
      proof cases
        case 1
        with Cons.prems(3) show ?thesis by (simp add: nth_append)
      next
        case 2
        with False show ?thesis by simp
      qed
    qed
    have 4: "\<forall>j < b. v < ?pre ! j"
      using Cons.prems(1,4) by (simp add: nth_append)
    from Cons.IH [OF 1 2 3 4] False show ?thesis
      unfolding app len by simp
  qed
qed

lemma argmin_first_min:
  assumes "ds \<noteq> []"
  shows "\<exists>best. argmin ds = Inr best \<and> best < length ds \<and>
           (\<forall>j < length ds. ds ! best \<le> ds ! j) \<and> (\<forall>j < best. ds ! best < ds ! j)"
proof -
  from assms obtain d rest where ds: "ds = d # rest" by (cases ds) auto
  have "argmin_from 0 d (length [d]) rest < length ([d] @ rest) \<and>
         (\<forall>j < length ([d] @ rest). ([d] @ rest) ! argmin_from 0 d (length [d]) rest \<le> ([d] @ rest) ! j) \<and>
         (\<forall>j < argmin_from 0 d (length [d]) rest.
             ([d] @ rest) ! argmin_from 0 d (length [d]) rest < ([d] @ rest) ! j)"
    by (rule argmin_from_first_min) simp_all
  then show ?thesis
    by (simp add: argmin_def ds)
qed

subsection \<open>The decision on one face\<close>

lemma lookup_Inr: "i < length xs \<Longrightarrow> lookup xs i = Inr (xs ! i)"
  by (simp add: lookup_def)

lemma recognize_face_known:
  assumes ne: "known_encodings s \<noteq> []" and al: "aligned s"
    and fd: "face_distance L (known_encodings s) q = Inr ds"
    and am: "argmin ds = Inr best" and best: "best < length ds"
  shows "recognize_face L img rq i q loc s =
     (if ds ! best \<le> face_distance_threshold s \<and> 1 - ds ! best \<ge> confidence_threshold s
      then (Inr (accepted_result (unknown_result L img rq i loc) (known_names s ! best)
                   (known_rolls s ! best) (1 - ds ! best) (ds ! best) (known_metadata s ! best)),
            add_success (1 - ds ! best) s)
      else (Inr (unknown_result L img rq i loc), s))"
proof -
  from face_distance_Inr [OF fd] have len: "length ds = length (known_encodings s)" by simp
  from al len best have l:
    "lookup ds best = Inr (ds ! best)"
    "lookup (known_names s) best = Inr (known_names s ! best)"
    "lookup (known_rolls s) best = Inr (known_rolls s ! best)"
    "lookup (known_metadata s) best = Inr (known_metadata s ! best)"
    by (simp_all add: aligned_def lookup_Inr)
  from ne have pos: "length (known_encodings s) > 0" by simp
  show ?thesis
    unfolding recognize_face_def Let_def
    by (simp add: ne fd am l)
qed

lemma recognize_face_empty:
  "known_encodings s = [] \<Longrightarrow>
     recognize_face L img rq i q loc s = (Inr (unknown_result L img rq i loc), s)"
  by (simp add: recognize_face_def)

lemma three_people_aligned: "aligned three_people"
  by (simp add: aligned_def three_people_def)

lemma three_people_fields:
  "known_encodings three_people = [[0], [0.35], [1], [1.45], [2], [2.4]]"
  "known_names three_people = [''Ann'', ''Ann'', ''Bob'', ''Bob'', ''Cy'', ''Cy'']"
  "known_rolls three_people = [''101'', ''101'', ''102'', ''102'', ''103'', ''103'']"
  "known_metadata three_people = [person_metadata 0, person_metadata 1, person_metadata 0,
                           person_metadata 1, person_metadata 0, person_metadata 1]"
  "face_distance_threshold three_people = 0.4"
  "confidence_threshold three_people = 0.65"
  "recognition_stats three_people = initial_stats"
  by (simp_all add: three_people_def initial_engine_def)

lemma three_people_face_distance:
  "face_distance sample_library (known_encodings three_people) [x]
   = Inr [\<bar>0 - x\<bar>, \<bar>0.35 - x\<bar>, \<bar>1 - x\<bar>, \<bar>1.45 - x\<bar>, \<bar>2 - x\<bar>, \<bar>2.4 - x\<bar>]"
  by (simp add: three_people_fields sample_norm)

lemma three_people_tie:
  "recognize_face sample_library blank_frame False 0 [0.175] (0, 0, 0, 0) three_people =
     (Inr \<lparr>face_id = 0, location = (0, 0, 0, 0), recognized = True, name = ''Ann'',
           roll_number = Some ''101'', confidence = 0.825, distance = Finite 0.175,
           metadata = Some (person_metadata 0), quality = None\<rparr>,
      add_success 0.825 three_people)"
  by (simp add: recognize_face_def three_people_fields sample_norm argmin_def lookup_def
        unknown_result_def accepted_result_def Let_def)

lemma three_people_far:
  "recognize_face sample_library blank_frame False 0 [3] (0, 0, 0, 0) three_people =
     (Inr \<lparr>face_id = 0, location = (0, 0, 0, 0), recognized = False, name = ''Unknown'',
           roll_number = None, confidence = 0, distance = Infinity,
           metadata = None, quality = None\<rparr>,
      three_people)"
  by (simp add: recognize_face_def three_people_fields sample_norm argmin_def lookup_def
        unknown_result_def accepted_result_def Let_def)

text \<open>
  Claim C1. For a query embedding matched against a non-empty store (whose parallel
  lists are aligned, as every load leaves them, and for which the library returns the
  distances), the matcher has the distance to every stored embedding, takes the index
  \<open>best\<close> of the minimum distance, the first one among equals, sets the confidence to
  \<open>1 - min_distance\<close>, and returns a match if and only if both
  \<open>min_distance \<le> face_distance_threshold\<close> and \<open>confidence \<ge> confidence_threshold\<close>. A
  match carries the name, roll number and metadata of entry \<open>best\<close>; otherwise the
  result is unmatched and carries no identity of the best candidate: the name is
  \<open>'Unknown'\<close>, the roll number and the metadata are absent, the confidence is 0 and the
  distance infinite.
\<close>

theorem recognize_face_decision:
  assumes "known_encodings s \<noteq> []" and "aligned s"
    and "face_distance L (known_encodings s) q = Inr ds"
  shows "\<exists>best r.
      length ds = length (known_encodings s) \<and>
      (\<forall>j < length (known_encodings s). norm_distance L (known_encodings s ! j) q = Some (ds ! j)) \<and>
      best < length ds \<and>
      (\<forall>j < length ds. ds ! best \<le> ds ! j) \<and>
      (\<forall>j < best. ds ! best < ds ! j) \<and>
      fst (recognize_face L img rq i q loc s) = Inr r \<and>
      (recognized r \<longleftrightarrow>
         ds ! best \<le> face_distance_threshold s \<and> 1 - ds ! best \<ge> confidence_threshold s) \<and>
      (recognized r \<longrightarrow>
         name r = known_names s ! best \<and> roll_number r = Some (known_rolls s ! best) \<and>
         metadata r = Some (known_metadata s ! best) \<and>
         confidence r = 1 - ds ! best \<and> distance r = Finite (ds ! best)) \<and>
      (\<not> recognized r \<longrightarrow>
         name r = ''Unknown'' \<and> roll_number r = None \<and> metadata r = None \<and>
         confidence r = 0 \<and> distance r = Infinity)"
proof -
  note fd = face_distance_Inr [OF assms(3)]
  from fd assms(1) have "ds \<noteq> []" by auto
  from argmin_first_min [OF this] obtain best where
    am: "argmin ds = Inr best" and best: "best < length ds" and
    least: "\<forall>j < length ds. ds ! best \<le> ds ! j" and first: "\<forall>j < best. ds ! best < ds ! j"
    by blast
  note rf = recognize_face_known [OF assms am best, of img rq i loc]
  show ?thesis
  proof (cases "ds ! best \<le> face_distance_threshold s \<and> 1 - ds ! best \<ge> confidence_threshold s")
    case True
    let ?r = "accepted_result (unknown_result L img rq i loc) (known_names s ! best)
                   (known_rolls s ! best) (1 - ds ! best) (ds ! best) (known_metadata s ! best)"
    from rf True have r: "fst (recognize_face L img rq i q loc s) = Inr ?r" by simp
    have props: "recognized ?r" "name ?r = known_names s ! best"
      "roll_number ?r = Some (known_rolls s ! best)" "metadata ?r = Some (known_metadata s ! best)"
      "confidence ?r = 1 - ds ! best" "distance ?r = Finite (ds ! best)"
      by (simp_all add: accepted_result_def)
    from fd best least first r True props show ?thesis
      by blast
  next
    case False
    let ?r = "unknown_result L img rq i loc"
    from rf False have r: "fst (recognize_face L img rq i q loc s) = Inr ?r" by auto
    have props: "\<not> recognized ?r" "name ?r = ''Unknown''" "roll_number ?r = None"
      "metadata ?r = None" "confidence ?r = 0" "distance ?r = Infinity"
      by (simp_all add: unknown_result_def)
    from fd best least first r False props show ?thesis
      by blast
  qed
qed

theorem recognize_face_decision_witness:
  "known_encodings three_people \<noteq> [] \<and> aligned three_people \<and>
   face_distance sample_library (known_encodings three_people) [0.175]
     = Inr [0.175, 0.175, 0.825, 1.275, 1.825, 2.225] \<and>
   fst (recognize_face sample_library blank_frame False 0 [0.175] (0, 0, 0, 0) three_people)
     = Inr \<lparr>face_id = 0, location = (0, 0, 0, 0), recognized = True, name = ''Ann'',
           roll_number = Some ''101'', confidence = 0.825, distance = Finite 0.175,
           metadata = Some (person_metadata 0), quality = None\<rparr> \<and>
   face_distance sample_library (known_encodings three_people) [3]
     = Inr [3, 2.65, 2, 1.55, 1, 0.6] \<and>
   fst (recognize_face sample_library blank_frame False 0 [3] (0, 0, 0, 0) three_people)
     = Inr \<lparr>face_id = 0, location = (0, 0, 0, 0), recognized = False, name = ''Unknown'',
           roll_number = None, confidence = 0, distance = Infinity,
           metadata = None, quality = None\<rparr>"
proof -
  have ne: "known_encodings three_people \<noteq> []"
    by (simp add: three_people_fields)
  have near: "face_distance sample_library (known_encodings three_people) [0.175]
     = Inr [0.175, 0.175, 0.825, 1.275, 1.825, 2.225]"
    by (simp add: three_people_face_distance)
  have far: "face_distance sample_library (known_encodings three_people) [3]
     = Inr [3, 2.65, 2, 1.55, 1, 0.6]"
    by (simp add: three_people_face_distance)
  have r1: "fst (recognize_face sample_library blank_frame False 0 [0.175] (0, 0, 0, 0) three_people)
     = Inr \<lparr>face_id = 0, location = (0, 0, 0, 0), recognized = True, name = ''Ann'',
           roll_number = Some ''101'', confidence = 0.825, distance = Finite 0.175,
           metadata = Some (person_metadata 0), quality = None\<rparr>"
    unfolding three_people_tie by simp
  have r2: "fst (recognize_face sample_library blank_frame False 0 [3] (0, 0, 0, 0) three_people)
     = Inr \<lparr>face_id = 0, location = (0, 0, 0, 0), recognized = False, name = ''Unknown'',
           roll_number = None, confidence = 0, distance = Infinity,
           metadata = None, quality = None\<rparr>"
    unfolding three_people_far by simp
  from recognize_face_decision [OF ne three_people_aligned near, of blank_frame False 0 "(0, 0, 0, 0)"]
       recognize_face_decision [OF ne three_people_aligned far, of blank_frame False 0 "(0, 0, 0, 0)"]
       ne three_people_aligned near far r1 r2
  show ?thesis
    by - (intro conjI; assumption)
qed

section \<open>A call on a frame\<close>

subsection \<open>What the counters keep\<close>

lemma add_success_fields:
  "known_encodings (add_success c s) = known_encodings s"
  "known_names (add_success c s) = known_names s"
  "known_rolls (add_success c s) = known_rolls s"
  "known_metadata (add_success c s) = known_metadata s"
  "face_distance_threshold (add_success c s) = face_distance_threshold s"
  "confidence_threshold (add_success c s) = confidence_threshold s"
  "total_attempts (recognition_stats (add_success c s)) = total_attempts (recognition_stats s)"
  "processing_times (recognition_stats (add_success c s)) = processing_times (recognition_stats s)"
  "successful_recognitions (recognition_stats (add_success c s))
     = successful_recognitions (recognition_stats s) + 1"
  "confidence_scores (recognition_stats (add_success c s))
     = confidence_scores (recognition_stats s) @ [c]"
  by (simp_all add: add_success_def)

lemma add_success_aligned: "aligned (add_success c s) = aligned s"
  by (simp add: aligned_def add_success_fields)

text \<open>What one face leaves of the engine: nothing but a success, when it is accepted.\<close>

lemma recognize_face_engine:
  assumes "recognize_face L img rq i q loc s = (out, s')"
  shows "(case out of
            Inl err \<Rightarrow> s' = s
          | Inr r \<Rightarrow> s' = (if recognized r then add_success (confidence r) s else s))"
  using assms
  by (auto simp: recognize_face_def Let_def unknown_result_def accepted_result_def
           split: sum.splits if_splits)

lemma recognize_face_returns:
  assumes "aligned s" and "face_distance L (known_encodings s) q = Inr ds"
  shows "\<exists>r s'. recognize_face L img rq i q loc s = (Inr r, s')"
proof (cases "known_encodings s = []")
  case True
  then show ?thesis by (simp add: recognize_face_empty)
next
  case False
  from face_distance_Inr [OF assms(2)] False have "ds \<noteq> []" by auto
  from argmin_first_min [OF this] obtain best where
    "argmin ds = Inr best" "best < length ds" by blast
  from recognize_face_known [OF False assms this, of img rq i loc] show ?thesis
    by (cases "ds ! best \<le> face_distance_threshold s \<and> 1 - ds ! best \<ge> confidence_threshold s")
       simp_all
qed

lemma recognize_loop_stats:
  assumes "recognize_loop L img rq i faces results s = (out, s')"
  shows "total_attempts (recognition_stats s') = total_attempts (recognition_stats s) \<and>
         processing_times (recognition_stats s') = processing_times (recognition_stats s) \<and>
         successful_recognitions (recognition_stats s') \<ge> successful_recognitions (recognition_stats s) \<and>
         (\<forall>rs. out = Inr rs \<longrightarrow>
            (\<exists>new. rs = results @ new \<and> length new = length faces \<and>
               successful_recognitions (recognition_stats s') =
                 successful_recognitions (recognition_stats s) + length (filter recognized new) \<and>
               confidence_scores (recognition_stats s') =
                 confidence_scores (recognition_stats s) @ map confidence (filter recognized new)))"
  using assms
proof (induction faces arbitrary: i results s)
  case Nil
  then show ?case by auto
next
  case (Cons face faces)
  obtain q loc where face: "face = (q, loc)" by (cases face)
  obtain o1 s1 where step: "recognize_face L img rq i q loc s = (o1, s1)"
    by (cases "recognize_face L img rq i q loc s")
  note eng = recognize_face_engine [OF step]
  show ?case
  proof (cases o1)
    case (Inl err)
    with Cons.prems face step eng show ?thesis by auto
  next
    case (Inr r)
    with Cons.prems face step have
      rest: "recognize_loop L img rq (Suc i) faces (results @ [r]) s1 = (out, s')"
      by simp
    from eng Inr have s1: "s1 = (if recognized r then add_success (confidence r) s else s)"
      by simp
    note IH = Cons.IH [OF rest]
    have fields:
      "total_attempts (recognition_stats s1) = total_attempts (recognition_stats s)"
      "processing_times (recognition_stats s1) = processing_times (recognition_stats s)"
      "successful_recognitions (recognition_stats s1) =
         successful_recognitions (recognition_stats s) + length (filter recognized [r])"
      "confidence_scores (recognition_stats s1) =
         confidence_scores (recognition_stats s) @ map confidence (filter recognized [r])"
      by (simp_all add: s1 add_success_fields)
    have "\<exists>new. rs = results @ new \<and> length new = length (face # faces) \<and>
               successful_recognitions (recognition_stats s') =
                 successful_recognitions (recognition_stats s) + length (filter recognized new) \<and>
               confidence_scores (recognition_stats s') =
                 confidence_scores (recognition_stats s) @ map confidence (filter recognized new)"
      if "out = Inr rs" for rs
    proof -
      from IH that obtain new where new: "rs = (results @ [r]) @ new" "length new = length faces"
        "successful_recognitions (recognition_stats s') =
           successful_recognitions (recognition_stats s1) + length (filter recognized new)"
        "confidence_scores (recognition_stats s') =
           confidence_scores (recognition_stats s1) @ map confidence (filter recognized new)"
        by blast
      have "rs = results @ (r # new)" using new(1) by simp
      moreover have "length (r # new) = length (face # faces)" using new(2) by simp
      moreover have "successful_recognitions (recognition_stats s') =
          successful_recognitions (recognition_stats s) + length (filter recognized (r # new))"
        using new(3) fields(3) by simp
      moreover have "confidence_scores (recognition_stats s') =
          confidence_scores (recognition_stats s) @ map confidence (filter recognized (r # new))"
        using new(4) fields(4) by simp
      ultimately show ?thesis by blast
    qed
    moreover from IH fields have
      "total_attempts (recognition_stats s') = total_attempts (recognition_stats s)"
      "processing_times (recognition_stats s') = processing_times (recognition_stats s)"
      "successful_recognitions (recognition_stats s') \<ge> successful_recognitions (recognition_stats s)"
      by simp_all
    ultimately show ?thesis by blast
  qed
qed

lemma recognize_loop_returns:
  assumes "aligned s"
    and "\<forall>(q, loc) \<in> set faces. \<exists>ds. face_distance L (known_encodings s) q = Inr ds"
  shows "\<exists>rs s'. recognize_loop L img rq i faces results s = (Inr rs, s')"
  using assms
proof (induction faces arbitrary: i results s)
  case Nil
  then show ?case by simp
next
  case (Cons face faces)
  obtain q loc where face: "face = (q, loc)" by (cases face)
  from Cons.prems(2) face obtain ds where ds: "face_distance L (known_encodings s) q = Inr ds"
    by auto
  from recognize_face_returns [OF Cons.prems(1) ds, of img rq i loc] obtain r s1 where
    step: "recognize_face L img rq i q loc s = (Inr r, s1)" by blast
  from recognize_face_engine [OF step]
  have s1: "s1 = (if recognized r then add_success (confidence r) s else s)" by simp
  then have al: "aligned s1" and known: "known_encodings s1 = known_encodings s"
    using Cons.prems(1) by (simp_all add: add_success_aligned add_success_fields)
  from Cons.prems(2) known
  have "\<forall>(q, loc) \<in> set faces. \<exists>ds. face_distance L (known_encodings s1) q = Inr ds"
    by simp
  from Cons.IH [OF al this, of "Suc i" "results @ [r]"] step face show ?case
    by simp
qed

lemma recognize_loop_empty_store:
  "known_encodings s = [] \<Longrightarrow>
   recognize_loop L img rq i faces results s =
     (Inr (results @ map (\<lambda>(k, q, loc). unknown_result L img rq k loc) (enumerate i faces)), s)"
  by (induction faces arbitrary: i results) (auto simp: recognize_face_empty)

lemma add_attempt_fields:
  "total_attempts (recognition_stats (add_attempt s)) = total_attempts (recognition_stats s) + 1"
  "successful_recognitions (recognition_stats (add_attempt s))
     = successful_recognitions (recognition_stats s)"
  "processing_times (recognition_stats (add_attempt s)) = processing_times (recognition_stats s)"
  "confidence_scores (recognition_stats (add_attempt s)) = confidence_scores (recognition_stats s)"
  "known_encodings (add_attempt s) = known_encodings s"
  "aligned (add_attempt s) = aligned s"
  by (simp_all add: add_attempt_def aligned_def)

lemma add_processing_time_fields:
  "total_attempts (recognition_stats (add_processing_time t s)) = total_attempts (recognition_stats s)"
  "successful_recognitions (recognition_stats (add_processing_time t s))
     = successful_recognitions (recognition_stats s)"
  "processing_times (recognition_stats (add_processing_time t s))
     = processing_times (recognition_stats s) @ [t]"
  "confidence_scores (recognition_stats (add_processing_time t s))
     = confidence_scores (recognition_stats s)"
  by (simp_all add: add_processing_time_def)

lemma recognize_faces_attempts:
  "total_attempts (recognition_stats (snd (recognize_faces L s img detected rq t)))
     = total_attempts (recognition_stats s) + 1"
proof (cases detected)
  case (Inl err)
  then show ?thesis by (simp add: recognize_faces_def Let_def add_attempt_fields)
next
  case (Inr faces)
  obtain out s2 where loop: "recognize_loop L img rq 0 faces [] (add_attempt s) = (out, s2)"
    by (cases "recognize_loop L img rq 0 faces [] (add_attempt s)")
  from recognize_loop_stats [OF loop]
  have "total_attempts (recognition_stats s2) = total_attempts (recognition_stats s) + 1"
    by (simp add: add_attempt_fields)
  with Inr loop show ?thesis
    by (cases out) (simp_all add: recognize_faces_def Let_def add_attempt_fields add_processing_time_fields)
qed

lemma add_attempt_store:
  "known_names (add_attempt s) = known_names s"
  "known_rolls (add_attempt s) = known_rolls s"
  "known_metadata (add_attempt s) = known_metadata s"
  "face_distance_threshold (add_attempt s) = face_distance_threshold s"
  "confidence_threshold (add_attempt s) = confidence_threshold s"
  by (simp_all add: add_attempt_def)

lemma three_people_two_faces:
  "recognize_faces sample_library three_people blank_frame (Inr two_faces) False 0.05 =
     ([\<lparr>face_id = 0, location = (10, 110, 110, 10), recognized = True, name = ''Ann'',
        roll_number = Some ''101'', confidence = 1, distance = Finite 0,
        metadata = Some (person_metadata 0), quality = None\<rparr>,
       \<lparr>face_id = 1, location = (10, 300, 110, 200), recognized = True, name = ''Bob'',
        roll_number = Some ''102'', confidence = 1, distance = Finite 0,
        metadata = Some (person_metadata 0), quality = None\<rparr>],
      add_processing_time 0.05 (add_success 1 (add_success 1 (add_attempt three_people))))"
  by (simp add: recognize_faces_def two_faces_def recognize_face_def Let_def
        add_attempt_fields add_attempt_store add_success_fields three_people_fields sample_norm
        argmin_def lookup_def unknown_result_def accepted_result_def)

lemma recognition_rate_def':
  "recognition_rate (get_performance_stats s) =
     (if total_attempts (recognition_stats s) = 0 then 0
      else real (successful_recognitions (recognition_stats s)) / real (total_attempts (recognition_stats s)))"
  by (simp add: get_performance_stats_def Let_def)

lemma recognition_rate_no_attempts:
  "total_attempts (recognition_stats s) = 0 \<Longrightarrow> recognition_rate (get_performance_stats s) = 0"
  by (simp add: recognition_rate_def')

subsection \<open>An empty store\<close>

text \<open>
  Claim C4. Against an empty store every query embedding gets the unmatched result,
  with distance \<open>float('inf')\<close> and no identity (the name \<open>'Unknown'\<close>, no roll number, no
  metadata, confidence 0); so a frame gets one such result for each of its faces.
\<close>

theorem recognize_faces_empty_store:
  assumes "known_encodings s = []"
  shows "recognize_face L img rq i q loc s = (Inr (unknown_result L img rq i loc), s) \<and>
         \<not> recognized (unknown_result L img rq i loc) \<and>
         distance (unknown_result L img rq i loc) = Infinity \<and>
         name (unknown_result L img rq i loc) = ''Unknown'' \<and>
         roll_number (unknown_result L img rq i loc) = None \<and>
         metadata (unknown_result L img rq i loc) = None \<and>
         confidence (unknown_result L img rq i loc) = 0 \<and>
         fst (recognize_faces L s img (Inr faces) rq t) =
           map (\<lambda>(k, q, loc). unknown_result L img rq k loc) (enumerate 0 faces)"
proof -
  have "known_encodings (add_attempt s) = []"
    using assms by (simp add: add_attempt_fields)
  from recognize_loop_empty_store [OF this, of L img rq 0 faces "[]"]
  have "fst (recognize_faces L s img (Inr faces) rq t) =
           map (\<lambda>(k, q, loc). unknown_result L img rq k loc) (enumerate 0 faces)"
    by (simp add: recognize_faces_def Let_def)
  with recognize_face_empty [OF assms] show ?thesis
    by (simp add: unknown_result_def)
qed

theorem recognize_faces_empty_store_witness:
  "known_encodings initial_engine = [] \<and>
   fst (recognize_faces sample_library initial_engine blank_frame (Inr two_faces) False 0.05) =
     [\<lparr>face_id = 0, location = (10, 110, 110, 10), recognized = False, name = ''Unknown'',
       roll_number = None, confidence = 0, distance = Infinity, metadata = None, quality = None\<rparr>,
      \<lparr>face_id = 1, location = (10, 300, 110, 200), recognized = False, name = ''Unknown'',
       roll_number = None, confidence = 0, distance = Infinity, metadata = None, quality = None\<rparr>]"
proof -
  have e: "known_encodings initial_engine = []"
    by (simp add: initial_engine_def)
  from recognize_faces_empty_store [OF e, of sample_library blank_frame False 0 "[0]" "(0, 0, 0, 0)"
      two_faces "0.05"] e
  show ?thesis
    by (simp add: two_faces_def unknown_result_def)
qed

subsection \<open>Attempts, successes and latencies\<close>

text \<open>
  Claim C9. A call on a frame whose faces are all processed adds exactly 1 to
  \<open>total_attempts\<close> and adds to \<open>successful_recognitions\<close> one for each accepted face of the
  frame. So with two or more accepted faces, and successes not behind attempts before
  the call, the recognition rate of \<open>get_performance_stats\<close> exceeds 1.
\<close>

theorem recognize_faces_successes_per_face:
  assumes "aligned s"
    and "\<forall>(q, loc) \<in> set faces. \<exists>ds. face_distance L (known_encodings s) q = Inr ds"
    and "recognize_faces L s img (Inr faces) rq t = (results, s')"
  shows "total_attempts (recognition_stats s') = total_attempts (recognition_stats s) + 1 \<and>
         length results = length faces \<and>
         successful_recognitions (recognition_stats s') =
           successful_recognitions (recognition_stats s) + length (filter recognized results) \<and>
         (2 \<le> length (filter recognized results) \<and>
          total_attempts (recognition_stats s) \<le> successful_recognitions (recognition_stats s)
            \<longrightarrow> recognition_rate (get_performance_stats s') > 1)"
proof -
  let ?s1 = "add_attempt s"
  have att: "total_attempts (recognition_stats s') = total_attempts (recognition_stats s) + 1"
    using recognize_faces_attempts [of L s img "Inr faces" rq t] assms(3) by simp
  have al: "aligned ?s1" using assms(1) by (simp add: add_attempt_fields)
  have lib: "\<forall>(q, loc) \<in> set faces. \<exists>ds. face_distance L (known_encodings ?s1) q = Inr ds"
    using assms(2) by (simp add: add_attempt_fields)
  from recognize_loop_returns [OF al lib, of img rq 0 "[]"] obtain rs s2 where
    loop: "recognize_loop L img rq 0 faces [] ?s1 = (Inr rs, s2)" by blast
  from recognize_loop_stats [OF loop] have
    len: "length rs = length faces" and
    succ: "successful_recognitions (recognition_stats s2) =
       successful_recognitions (recognition_stats s) + length (filter recognized rs)"
    by (auto simp: add_attempt_fields)
  have res: "results = rs \<and> successful_recognitions (recognition_stats s') =
      successful_recognitions (recognition_stats s2)"
  proof (cases "faces = []")
    case True
    with assms(3) loop show ?thesis
      by (auto simp: recognize_faces_def Let_def)
  next
    case False
    with assms(3) loop show ?thesis
      by (auto simp: recognize_faces_def Let_def add_processing_time_fields)
  qed
  have rate: "recognition_rate (get_performance_stats s') > 1"
    if "2 \<le> length (filter recognized results)"
       "total_attempts (recognition_stats s) \<le> successful_recognitions (recognition_stats s)"
  proof -
    from that res succ att
    have "total_attempts (recognition_stats s') < successful_recognitions (recognition_stats s')"
      by simp
    moreover from att have "total_attempts (recognition_stats s') > 0" by simp
    ultimately show ?thesis
      by (simp add: recognition_rate_def')
  qed
  from att len succ res rate show ?thesis by simp
qed

theorem recognize_faces_successes_per_face_witness:
  "aligned three_people \<and>
   length (filter recognized
      (fst (recognize_faces sample_library three_people blank_frame (Inr two_faces) False 0.05))) = 2 \<and>
   total_attempts (recognition_stats
      (snd (recognize_faces sample_library three_people blank_frame (Inr two_faces) False 0.05))) = 1 \<and>
   successful_recognitions (recognition_stats
      (snd (recognize_faces sample_library three_people blank_frame (Inr two_faces) False 0.05))) = 2 \<and>
   recognition_rate (get_performance_stats
      (snd (recognize_faces sample_library three_people blank_frame (Inr two_faces) False 0.05))) = 2"
proof -
  have lib: "\<forall>(q, loc) \<in> set two_faces.
      \<exists>ds. face_distance sample_library (known_encodings three_people) q = Inr ds"
    by (simp add: two_faces_def three_people_face_distance)
  have st: "total_attempts (recognition_stats three_people) = 0"
    "successful_recognitions (recognition_stats three_people) = 0"
    by (simp_all add: three_people_fields initial_stats_def)
  note c = recognize_faces_successes_per_face [OF three_people_aligned lib three_people_two_faces]
  have two: "length (filter recognized
      (fst (recognize_faces sample_library three_people blank_frame (Inr two_faces) False 0.05))) = 2"
    unfolding three_people_two_faces by simp
  let ?s' = "snd (recognize_faces sample_library three_people blank_frame (Inr two_faces) False 0.05)"
  from c st have att: "total_attempts (recognition_stats ?s') = 1"
    unfolding three_people_two_faces by simp
  from c st have succ: "successful_recognitions (recognition_stats ?s') = 2"
    unfolding three_people_two_faces by simp
  from att succ have rate: "recognition_rate (get_performance_stats ?s') = 2"
    by (simp add: recognition_rate_def')
  from three_people_aligned two att succ rate show ?thesis
    by - (intro conjI; assumption)
qed

text \<open>A call that processes its faces appends its one latency sample.\<close>

lemma recognize_faces_latency:
  assumes "aligned s"
    and "\<forall>(q, loc) \<in> set faces. \<exists>ds. face_distance L (known_encodings s) q = Inr ds"
    and "faces \<noteq> []"
  shows "processing_times (recognition_stats (snd (recognize_faces L s img (Inr faces) rq t)))
     = processing_times (recognition_stats s) @ [t]"
proof -
  let ?s1 = "add_attempt s"
  have al: "aligned ?s1" using assms(1) by (simp add: add_attempt_fields)
  have lib: "\<forall>(q, loc) \<in> set faces. \<exists>ds. face_distance L (known_encodings ?s1) q = Inr ds"
    using assms(2) by (simp add: add_attempt_fields)
  from recognize_loop_returns [OF al lib, of img rq 0 "[]"] obtain rs s2 where
    loop: "recognize_loop L img rq 0 faces [] ?s1 = (Inr rs, s2)" by blast
  from recognize_loop_stats [OF loop]
  have "processing_times (recognition_stats s2) = processing_times (recognition_stats s)"
    by (simp add: add_attempt_fields)
  with loop assms(3) show ?thesis
    by (simp add: recognize_faces_def Let_def add_processing_time_fields)
qed

text \<open>
  Claim C7 asks for one latency sample for every call, whatever its outcome. The call
  on a frame without a face returns before the append: the attempt is counted, and
  \<open>processing_times\<close> is as it was. From the initial engine, one such call leaves 1
  attempt and 0 latency samples. The exception handler returns the same way.
\<close>

theorem recognize_faces_no_face_no_latency:
  "recognize_faces L s img (Inr []) rq t = ([], add_attempt s) \<and>
   total_attempts (recognition_stats (snd (recognize_faces L s img (Inr []) rq t)))
     = total_attempts (recognition_stats s) + 1 \<and>
   processing_times (recognition_stats (snd (recognize_faces L s img (Inr []) rq t)))
     = processing_times (recognition_stats s) \<and>
   length (processing_times (recognition_stats
      (snd (recognize_faces sample_library initial_engine blank_frame (Inr []) True 0.05)))) = 0 \<and>
   total_attempts (recognition_stats
      (snd (recognize_faces sample_library initial_engine blank_frame (Inr []) True 0.05))) = 1"
  by (simp add: recognize_faces_def Let_def add_attempt_fields) (simp add: initial_engine_def initial_stats_def)

lemma recognize_faces_exception_no_latency:
  "recognize_faces L s img (Inl err) rq t = ([], add_attempt s)"
  by (simp add: recognize_faces_def Let_def)

end
